theory Spec2Isabelle
  imports Main "HOL-Library.Word" "HOL-Library.Char_ord" "HOL-Library.List_Lexorder"
begin

section \<open>Data model of yaml.go\<close>

subsection \<open>Errors\<close>

text \<open>
  A Go \<open>error\<close> value. \<open>ErrYAML\<close> is the package's sentinel error; \<open>Errorf fmt es\<close> is
  \<open>fmt.Errorf(fmt, ...)\<close> with the errors wrapped by its \<open>%w\<close> verbs (the other
  arguments are not rendered); \<open>LibError\<close> is an error returned by a library
  (strconv, the YAML parser, a user-supplied processor); \<open>Panic\<close> is a run-time panic
  (index out of range, nil dereference), which aborts the call.
\<close>

datatype error =
    ErrYAML
  | Errorf string "error list"
  | LibError string
  | Panic string

subsection \<open>The YAML node tree (yaml.Node of gopkg.in/yaml.v3)\<close>

datatype Kind = DocumentNode | SequenceNode | MappingNode | ScalarNode | AliasNode | UnknownKind

text \<open>
  The fields of \<open>yaml.Node\<close> that yaml.go reads or writes. \<open>Content\<close> and \<open>Alias\<close> are
  pointers in Go; here the tree is finite and \<open>Alias = None\<close> is the nil pointer.
\<close>

datatype Node = Node (Kind: Kind) (Tag: string) (Value: string) (Content: "Node list") (Alias: "Node option")

subsection \<open>Dynamic values (Go's interface{})\<close>

text \<open>A float64 is its IEEE-754 bit pattern; parsing and printing are library functions.\<close>

type_synonym float64 = "64 word"

text \<open>The static type of a nil pointer, map or slice held in an interface.\<close>

datatype GoType = TJSONMapSlice | TMapString | TMapIface | TSlice | TNodePtr | TIfacePtr | TOtherNilable string

text \<open>
  The dynamic values yaml.go distinguishes in its type switches. \<open>VMapSlice\<close>, \<open>VMap\<close>,
  \<open>VGMap\<close> and \<open>VSlice\<close> are non-nil; \<open>VNilOf t\<close> is a nil pointer, map, slice or channel
  of static type \<open>t\<close>; \<open>VNil\<close> is the nil interface. A Go map is the list of its
  key/value pairs in the order one iteration visits them (keys pairwise distinct).
  \<open>VIfacePtr v\<close> is a non-nil \<open>*interface{}\<close> pointing at \<open>v\<close>; \<open>VSliceItem v\<close> is the
  struct \<open>JSONSliceItem{Value: v}\<close>; \<open>VOther t\<close> is a non-nil value of any other type \<open>t\<close>. Go's \<open>int\<close> and \<open>uint\<close> are taken as 64 bits wide.
\<close>

datatype val =
    VNil
  | VNilOf GoType
  | VString string
  | VBool bool
  | VFloat64 float64
  | VInt "64 word" | VInt8 "8 word" | VInt16 "16 word" | VInt32 "32 word" | VInt64 "64 word"
  | VUint "64 word" | VUint8 "8 word" | VUint16 "16 word" | VUint32 "32 word" | VUint64 "64 word"
  | VMapSlice "JSONMapItem list"
  | VMap "(string \<times> val) list"
  | VGMap "(val \<times> val) list"
  | VSlice "val list"
  | VNode Node
  | VNodePtr Node
  | VIfacePtr val
  | VSliceItem val
  | VOther string
and JSONMapItem = JSONMapItem (Key: string) (ItemValue: val)

type_synonym JSONMapSlice = "JSONMapItem list"

section \<open>Library functions used by yaml.go\<close>

subsection \<open>strconv\<close>

definition digit :: "nat \<Rightarrow> char" where
  "digit d = ''0123456789'' ! d"

text \<open>Base-10 rendering of a natural number.\<close>

fun decimal :: "nat \<Rightarrow> string" where
  "decimal n = (if n < 10 then [digit n] else decimal (n div 10) @ [digit (n mod 10)])"

declare decimal.simps [simp del]

text \<open>\<open>strconv.FormatUint(x, 10)\<close> and \<open>strconv.FormatInt(x, 10)\<close>.\<close>

definition FormatUint :: "64 word \<Rightarrow> string" where
  "FormatUint x = decimal (unat x)"

definition FormatInt :: "64 word \<Rightarrow> string" where
  "FormatInt x = (if sint x < 0 then CHR ''-'' # decimal (nat (- sint x)) else decimal (nat (sint x)))"

definition FormatBool :: "bool \<Rightarrow> string" where
  "FormatBool b = (if b then ''true'' else ''false'')"

fun indexOf :: "char \<Rightarrow> string \<Rightarrow> nat option" where
  "indexOf c [] = None"
| "indexOf c (x # xs) = (if c = x then Some 0 else map_option Suc (indexOf c xs))"

definition digitVal :: "char \<Rightarrow> nat option" where
  "digitVal c = indexOf c ''0123456789''"

fun parseDigits :: "string \<Rightarrow> nat \<Rightarrow> nat option" where
  "parseDigits [] acc = Some acc"
| "parseDigits (c # cs) acc =
    (case digitVal c of None \<Rightarrow> None | Some d \<Rightarrow> parseDigits cs (10 * acc + d))"

text \<open>\<open>strconv.ParseUint(s, 10, 64)\<close>: digits only, at least one, below \<open>2^64\<close>.\<close>

definition ParseUint :: "string \<Rightarrow> error + nat" where
  "ParseUint s =
    (if s = [] then Inl (LibError ''invalid syntax'')
     else case parseDigits s 0 of
        None \<Rightarrow> Inl (LibError ''invalid syntax'')
      | Some n \<Rightarrow> if n \<ge> 2 ^ 64 then Inl (LibError ''value out of range'') else Inr n)"

text \<open>\<open>strconv.ParseInt(s, 10, 64)\<close>: an optional sign, then \<open>ParseUint\<close>, then the signed range.\<close>

definition ParseInt :: "string \<Rightarrow> error + 64 word" where
  "ParseInt s =
    (if s = [] then Inl (LibError ''invalid syntax'')
     else
       let neg = (hd s = CHR ''-'');
           s' = (if hd s = CHR ''+'' \<or> hd s = CHR ''-'' then tl s else s)
       in case ParseUint s' of
            Inl e \<Rightarrow> Inl e
          | Inr un \<Rightarrow>
              if \<not> neg \<and> un \<ge> 2 ^ 63 then Inl (LibError ''value out of range'')
              else if neg \<and> un > 2 ^ 63 then Inl (LibError ''value out of range'')
              else Inr (word_of_int (if neg then - int un else int un)))"

text \<open>\<open>strconv.ParseBool\<close>.\<close>

definition ParseBool :: "string \<Rightarrow> error + bool" where
  "ParseBool s =
    (if s \<in> set [''1'', ''t'', ''T'', ''TRUE'', ''true'', ''True''] then Inr True
     else if s \<in> set [''0'', ''f'', ''F'', ''FALSE'', ''false'', ''False''] then Inr False
     else Inl (LibError ''invalid syntax''))"

subsection \<open>Tags of a yaml.Node\<close>

definition longTagPrefix :: string where
  "longTagPrefix = ''tag:yaml.org,2002:''"

definition hasPrefix :: "string \<Rightarrow> string \<Rightarrow> bool" where
  "hasPrefix s p = (take (length p) s = p)"

definition shortTag :: "string \<Rightarrow> string" where
  "shortTag t = (if hasPrefix t longTagPrefix then ''!!'' @ drop (length longTagPrefix) t else t)"

definition longTag :: "string \<Rightarrow> string" where
  "longTag t = (if hasPrefix t ''!!'' then longTagPrefix @ drop 2 t else t)"

text \<open>
  \<open>Node.LongTag()\<close>: the long form of the node's tag. An explicit tag is normalised;
  for an untagged node (\<open>Tag\<close> empty or \<open>!\<close>) the library resolves a short tag from the
  node's kind, style and text, and that resolver is the parameter \<open>resolve\<close>.
\<close>

definition LongTag :: "(Node \<Rightarrow> string) \<Rightarrow> Node \<Rightarrow> string" where
  "LongTag resolve n =
    longTag (if Tag n = [] \<or> Tag n = ''!'' then resolve n else shortTag (Tag n))"

section \<open>The tree walker\<close>

definition yamlStringScalar :: string where "yamlStringScalar = ''tag:yaml.org,2002:str''"
definition yamlIntScalar :: string where "yamlIntScalar = ''tag:yaml.org,2002:int''"
definition yamlBoolScalar :: string where "yamlBoolScalar = ''tag:yaml.org,2002:bool''"
definition yamlFloatScalar :: string where "yamlFloatScalar = ''tag:yaml.org,2002:float''"
definition yamlTimestamp :: string where "yamlTimestamp = ''tag:yaml.org,2002:timestamp''"
definition yamlNull :: string where "yamlNull = ''tag:yaml.org,2002:null''"

lemmas yamlTags_defs =
  yamlStringScalar_def yamlIntScalar_def yamlBoolScalar_def yamlFloatScalar_def
  yamlTimestamp_def yamlNull_def

text \<open>
  \<open>yamlScalar\<close>. \<open>ParseFloat\<close> stands for \<open>strconv.ParseFloat(s, 64)\<close>. The hooks that the
  walker's functions carry are never called and are left out.
\<close>

definition yamlScalar :: "(Node \<Rightarrow> string) \<Rightarrow> (string \<Rightarrow> error + float64) \<Rightarrow> Node \<Rightarrow> error + val" where
  "yamlScalar resolve ParseFloat node =
    (let t = LongTag resolve node in
     if t = yamlStringScalar then Inr (VString (Value node))
     else if t = yamlBoolScalar then
       (case ParseBool (Value node) of
          Inl err \<Rightarrow> Inl (Errorf ''unable to process scalar node. Got %q. Expecting bool content: %w: %w'' [err, ErrYAML])
        | Inr b \<Rightarrow> Inr (VBool b))
     else if t = yamlIntScalar then
       (case ParseInt (Value node) of
          Inl err \<Rightarrow> Inl (Errorf ''unable to process scalar node. Got %q. Expecting integer content: %w: %w'' [err, ErrYAML])
        | Inr i \<Rightarrow> Inr (VInt64 i))
     else if t = yamlFloatScalar then
       (case ParseFloat (Value node) of
          Inl err \<Rightarrow> Inl (Errorf ''unable to process scalar node. Got %q. Expecting float content: %w: %w'' [err, ErrYAML])
        | Inr f \<Rightarrow> Inr (VFloat64 f))
     else if t = yamlTimestamp then Inr (VString (Value node))
     else if t = yamlNull then Inr VNil
     else Inl (Errorf ''YAML tag %q is not supported: %w'' [ErrYAML]))"

definition yamlStringScalarC :: "(Node \<Rightarrow> string) \<Rightarrow> Node \<Rightarrow> error + string" where
  "yamlStringScalarC resolve node =
    (if Kind node \<noteq> ScalarNode then Inl (Errorf ''expecting a string scalar but got %q: %w'' [ErrYAML])
     else
       let t = LongTag resolve node in
       if t = yamlStringScalar \<or> t = yamlIntScalar \<or> t = yamlFloatScalar then Inr (Value node)
       else Inl (Errorf ''YAML tag %q is not supported as map key: %w'' [ErrYAML]))"

lemma size_Content_nth: "i < length (Content n) \<Longrightarrow> size (Content n ! i) < size n"
proof (cases n)
  case (Node k t v cs a)
  assume "i < length (Content n)"
  with Node have "cs ! i \<in> set cs" by simp
  then have "size (cs ! i) \<le> size_list size cs"
    by (rule size_list_estimation') simp
  with Node show ?thesis by simp
qed

lemma size_Alias: "Alias n = Some a \<Longrightarrow> size a < size n"
  by (cases n) auto

text \<open>
  \<open>yamlNode\<close> and the functions it dispatches to. The loops of \<open>yamlMapping\<close> and
  \<open>yamlSequence\<close> carry their variables: the index \<open>i\<close>, the write position \<open>j\<close> and the
  slice \<open>m\<close> allocated with \<open>len(node.Content)/2\<close> zero items, or the slice \<open>s\<close> appended to.
\<close>

function yamlNode :: "(Node \<Rightarrow> string) \<Rightarrow> (string \<Rightarrow> error + float64) \<Rightarrow> Node \<Rightarrow> error + val"
  and yamlDocument :: "(Node \<Rightarrow> string) \<Rightarrow> (string \<Rightarrow> error + float64) \<Rightarrow> Node \<Rightarrow> error + val"
  and yamlMapping :: "(Node \<Rightarrow> string) \<Rightarrow> (string \<Rightarrow> error + float64) \<Rightarrow> Node \<Rightarrow> error + val"
  and yamlMapping_loop :: "(Node \<Rightarrow> string) \<Rightarrow> (string \<Rightarrow> error + float64) \<Rightarrow> Node \<Rightarrow> nat \<Rightarrow> nat \<Rightarrow> JSONMapSlice \<Rightarrow> error + val"
  and yamlSequence :: "(Node \<Rightarrow> string) \<Rightarrow> (string \<Rightarrow> error + float64) \<Rightarrow> Node \<Rightarrow> error + val"
  and yamlSequence_loop :: "(Node \<Rightarrow> string) \<Rightarrow> (string \<Rightarrow> error + float64) \<Rightarrow> Node \<Rightarrow> nat \<Rightarrow> val list \<Rightarrow> error + val"
where
  "yamlNode resolve ParseFloat root =
    (case Kind root of
       DocumentNode \<Rightarrow> yamlDocument resolve ParseFloat root
     | SequenceNode \<Rightarrow> yamlSequence resolve ParseFloat root
     | MappingNode \<Rightarrow> yamlMapping resolve ParseFloat root
     | ScalarNode \<Rightarrow> yamlScalar resolve ParseFloat root
     | AliasNode \<Rightarrow>
         (case Alias root of
            None \<Rightarrow> Inl (Panic ''nil pointer dereference'')
          | Some a \<Rightarrow> yamlNode resolve ParseFloat a)
     | UnknownKind \<Rightarrow> Inl (Errorf ''unsupported YAML node type: %v: %w'' [ErrYAML]))"
| "yamlDocument resolve ParseFloat node =
    (if length (Content node) \<noteq> 1
     then Inl (Errorf ''unexpected YAML Document node content length: %d: %w'' [ErrYAML])
     else yamlNode resolve ParseFloat (Content node ! 0))"
| "yamlMapping resolve ParseFloat node =
    yamlMapping_loop resolve ParseFloat node 0 0
      (replicate (length (Content node) div 2) (JSONMapItem [] VNil))"
| "yamlMapping_loop resolve ParseFloat node i j m =
    (if i < length (Content node) then
       (case yamlStringScalarC resolve (Content node ! i) of
          Inl err \<Rightarrow> Inl (Errorf ''unable to decode YAML map key: %w: %w'' [err, ErrYAML])
        | Inr k \<Rightarrow>
            if i + 1 < length (Content node) then
              (case yamlNode resolve ParseFloat (Content node ! (i + 1)) of
                 Inl err \<Rightarrow> Inl (Errorf ''unable to process YAML map value for key %q: %w: %w'' [err, ErrYAML])
               | Inr v \<Rightarrow>
                   if j < length m
                   then yamlMapping_loop resolve ParseFloat node (i + 2) (j + 1) (m[j := JSONMapItem k v])
                   else Inl (Panic ''index out of range''))
            else Inl (Panic ''index out of range''))
     else Inr (VMapSlice m))"
| "yamlSequence resolve ParseFloat node = yamlSequence_loop resolve ParseFloat node 0 []"
| "yamlSequence_loop resolve ParseFloat node i s =
    (if i < length (Content node) then
       (case yamlNode resolve ParseFloat (Content node ! i) of
          Inl err \<Rightarrow> Inl (Errorf ''unable to decode YAML sequence value: %w: %w'' [err, ErrYAML])
        | Inr v \<Rightarrow> yamlSequence_loop resolve ParseFloat node (i + 1) (s @ [v]))
     else Inr (VSlice s))"
  by pat_completeness auto

termination
proof (relation "measures
    [\<lambda>x. case x of
        Inl (Inl (_, _, n)) \<Rightarrow> size n
      | Inl (Inr (Inl (_, _, n))) \<Rightarrow> size n
      | Inl (Inr (Inr (_, _, n))) \<Rightarrow> size n
      | Inr (Inl (_, _, n, _, _, _)) \<Rightarrow> size n
      | Inr (Inr (Inl (_, _, n))) \<Rightarrow> size n
      | Inr (Inr (Inr (_, _, n, _, _))) \<Rightarrow> size n,
     \<lambda>x. case x of
        Inl (Inl (_, _, n)) \<Rightarrow> length (Content n) + 3
      | Inl (Inr (Inl (_, _, n))) \<Rightarrow> length (Content n) + 2
      | Inl (Inr (Inr (_, _, n))) \<Rightarrow> length (Content n) + 2
      | Inr (Inl (_, _, n, i, _, _)) \<Rightarrow> length (Content n) + 1 - i
      | Inr (Inr (Inl (_, _, n))) \<Rightarrow> length (Content n) + 2
      | Inr (Inr (Inr (_, _, n, i, _))) \<Rightarrow> length (Content n) + 1 - i]",
    goal_cases)
qed (auto simp: size_Content_nth size_Alias)


declare yamlNode.simps [simp del] yamlDocument.simps [simp del] yamlMapping.simps [simp del]
  yamlMapping_loop.simps [simp del] yamlSequence.simps [simp del] yamlSequence_loop.simps [simp del]

text \<open>
  \<open>BytesToYAMLDoc\<close>. \<open>Unmarshal\<close> stands for \<open>yaml.Unmarshal(data, &document)\<close>: it gives
  the parser's error, or the node left in \<open>document\<close>.
\<close>

definition BytesToYAMLDoc :: "(8 word list \<Rightarrow> error + Node) \<Rightarrow> 8 word list \<Rightarrow> error + val" where
  "BytesToYAMLDoc Unmarshal data =
    (case Unmarshal data of
       Inl err \<Rightarrow> Inl err
     | Inr document \<Rightarrow>
         if Kind document \<noteq> DocumentNode \<or> length (Content document) \<noteq> 1
            \<or> Kind (Content document ! 0) \<noteq> MappingNode
         then Inl (Errorf ''only YAML documents that are objects are supported: %w'' [ErrYAML])
         else Inr (VNodePtr document))"

section \<open>The reverse converter\<close>

text \<open>\<open>isNil\<close>: the nil interface, or a nil pointer, map, slice or channel.\<close>

fun isNil :: "val \<Rightarrow> bool" where
  "isNil VNil = True"
| "isNil (VNilOf t) = True"
| "isNil v = False"

text \<open>\<open>val[k]\<close> on a Go map: the zero value (the nil interface) for a missing key.\<close>

definition mapIndex :: "(string \<times> val) list \<Rightarrow> string \<Rightarrow> val" where
  "mapIndex kvs k = (case map_of kvs k of None \<Rightarrow> VNil | Some v \<Rightarrow> v)"

definition keyNode :: "string \<Rightarrow> Node" where
  "keyNode k = Node ScalarNode yamlStringScalar k [] None"

lemma size_mapIndex: "size (mapIndex kvs k) < Suc (size_list (size_prod (\<lambda>x. 0) size) kvs)"
proof (cases "map_of kvs k")
  case None
  then show ?thesis by (simp add: mapIndex_def)
next
  case (Some v)
  then have "(k, v) \<in> set kvs" by (rule map_of_SomeD)
  then have "size_prod (\<lambda>x. 0) size (k, v) \<le> size_list (size_prod (\<lambda>x. 0) size) kvs"
    by (rule size_list_estimation') simp
  with Some show ?thesis by (simp add: mapIndex_def)
qed

lemma size_ItemValue: "size (ItemValue it) < Suc (size it + n)"
  by (cases it) simp

text \<open>
  \<open>json2yaml\<close>, with one function for each of its three loops; \<open>content\<close> is \<open>n.Content\<close>
  so far. \<open>FormatFloat\<close> stands for \<open>strconv.FormatFloat(val, 'f', -1, 64)\<close>. In the
  \<open>JSONMapSlice\<close> case the recursive call receives \<open>&val[i].Value\<close>, a pointer to the
  interface value.
\<close>

function json2yaml :: "(float64 \<Rightarrow> string) \<Rightarrow> val \<Rightarrow> error + Node"
  and json2yaml_mapslice :: "(float64 \<Rightarrow> string) \<Rightarrow> JSONMapSlice \<Rightarrow> Node list \<Rightarrow> error + Node"
  and json2yaml_map :: "(float64 \<Rightarrow> string) \<Rightarrow> (string \<times> val) list \<Rightarrow> string list \<Rightarrow> Node list \<Rightarrow> error + Node"
  and json2yaml_slice :: "(float64 \<Rightarrow> string) \<Rightarrow> val list \<Rightarrow> Node list \<Rightarrow> error + Node"
where
  "json2yaml FormatFloat item =
    (if isNil item then Inr (Node ScalarNode [] ''null'' [] None)
     else case item of
       VMapSlice val \<Rightarrow> json2yaml_mapslice FormatFloat val []
     | VMap val \<Rightarrow> json2yaml_map FormatFloat val (sort (map fst val)) []
     | VSlice val \<Rightarrow> json2yaml_slice FormatFloat val []
     | VString val \<Rightarrow> Inr (Node ScalarNode yamlStringScalar val [] None)
     | VFloat64 val \<Rightarrow> Inr (Node ScalarNode yamlFloatScalar (FormatFloat val) [] None)
     | VInt64 val \<Rightarrow> Inr (Node ScalarNode yamlIntScalar (FormatInt val) [] None)
     | VUint64 val \<Rightarrow> Inr (Node ScalarNode yamlIntScalar (FormatUint val) [] None)
     | VBool val \<Rightarrow> Inr (Node ScalarNode yamlBoolScalar (FormatBool val) [] None)
     | _ \<Rightarrow> Inl (Errorf ''unhandled type: %T: %w'' [ErrYAML]))"
| "json2yaml_mapslice FormatFloat [] content = Inr (Node MappingNode [] [] content None)"
| "json2yaml_mapslice FormatFloat (it # rest) content =
    (case json2yaml FormatFloat (VIfacePtr (ItemValue it)) of
       Inl err \<Rightarrow> Inl err
     | Inr childNode \<Rightarrow> json2yaml_mapslice FormatFloat rest (content @ [keyNode (Key it), childNode]))"
| "json2yaml_map FormatFloat val [] content = Inr (Node MappingNode [] [] content None)"
| "json2yaml_map FormatFloat val (k # keys) content =
    (case json2yaml FormatFloat (mapIndex val k) of
       Inl err \<Rightarrow> Inl err
     | Inr childNode \<Rightarrow> json2yaml_map FormatFloat val keys (content @ [keyNode k, childNode]))"
| "json2yaml_slice FormatFloat [] content = Inr (Node SequenceNode [] [] content None)"
| "json2yaml_slice FormatFloat (v # rest) content =
    (case json2yaml FormatFloat v of
       Inl err \<Rightarrow> Inl err
     | Inr childNode \<Rightarrow> json2yaml_slice FormatFloat rest (content @ [childNode]))"
  by pat_completeness auto

termination
proof (relation "measures
    [\<lambda>x. case x of
        Inl (Inl (_, v)) \<Rightarrow> size v
      | Inl (Inr (_, items, _)) \<Rightarrow> size (VMapSlice items)
      | Inr (Inl (_, kvs, _, _)) \<Rightarrow> size (VMap kvs)
      | Inr (Inr (_, vs, _)) \<Rightarrow> size (VSlice vs),
     \<lambda>x. case x of
        Inl (Inl (_, v)) \<Rightarrow> (case v of VMap kvs \<Rightarrow> length kvs + 1 | _ \<Rightarrow> 1)
      | Inl (Inr (_, items, _)) \<Rightarrow> 0
      | Inr (Inl (_, _, keys, _)) \<Rightarrow> length keys
      | Inr (Inr (_, _, _)) \<Rightarrow> 0]",
    goal_cases)
qed (auto simp: size_mapIndex size_ItemValue)

declare json2yaml.simps [simp del]

text \<open>
  \<open>JSONMapSlice.MarshalYAML\<close>; \<open>Marshal\<close> stands for \<open>yaml.Marshal\<close>, which renders the
  document node built here.
\<close>

fun MarshalYAML_loop :: "(float64 \<Rightarrow> string) \<Rightarrow> JSONMapSlice \<Rightarrow> Node list \<Rightarrow> error + Node list" where
  "MarshalYAML_loop FormatFloat [] nodes = Inr nodes"
| "MarshalYAML_loop FormatFloat (item # rest) nodes =
    (case json2yaml FormatFloat (ItemValue item) of
       Inl err \<Rightarrow> Inl err
     | Inr nn \<Rightarrow> MarshalYAML_loop FormatFloat rest (nodes @ [keyNode (Key item), nn]))"

definition MarshalYAML :: "(Node \<Rightarrow> error + 'b) \<Rightarrow> (float64 \<Rightarrow> string) \<Rightarrow> JSONMapSlice \<Rightarrow> error + 'b" where
  "MarshalYAML Marshal FormatFloat s =
    (case MarshalYAML_loop FormatFloat s [] of
       Inl err \<Rightarrow> Inl err
     | Inr nodes \<Rightarrow> Marshal (Node DocumentNode [] [] [Node MappingNode [] [] nodes None] None))"




section \<open>The key normaliser\<close>

text \<open>
  The closure \<open>format\<close> of \<open>transformData\<close>. The conversions \<open>uint64(k)\<close> and \<open>int64(k)\<close>
  are \<open>ucast\<close> and \<open>scast\<close>; \<open>strconv.Itoa(k)\<close> is \<open>FormatInt(int64(k), 10)\<close>.
\<close>

fun format :: "val \<Rightarrow> error + string" where
  "format (VString k) = Inr k"
| "format (VUint k) = Inr (FormatUint k)"
| "format (VUint8 k) = Inr (FormatUint (ucast k))"
| "format (VUint16 k) = Inr (FormatUint (ucast k))"
| "format (VUint32 k) = Inr (FormatUint (ucast k))"
| "format (VUint64 k) = Inr (FormatUint k)"
| "format (VInt k) = Inr (FormatInt k)"
| "format (VInt8 k) = Inr (FormatInt (scast k))"
| "format (VInt16 k) = Inr (FormatInt (scast k))"
| "format (VInt32 k) = Inr (FormatInt (scast k))"
| "format (VInt64 k) = Inr (FormatInt k)"
| "format k = Inl (Errorf ''unexpected map key type, got: %T: %w'' [ErrYAML])"

text \<open>The number that a map key of an integer type holds, and its canonical base-10 text.\<close>

fun keyNumber :: "val \<Rightarrow> int option" where
  "keyNumber (VUint k) = Some (uint k)"
| "keyNumber (VUint8 k) = Some (uint k)"
| "keyNumber (VUint16 k) = Some (uint k)"
| "keyNumber (VUint32 k) = Some (uint k)"
| "keyNumber (VUint64 k) = Some (uint k)"
| "keyNumber (VInt k) = Some (sint k)"
| "keyNumber (VInt8 k) = Some (sint k)"
| "keyNumber (VInt16 k) = Some (sint k)"
| "keyNumber (VInt32 k) = Some (sint k)"
| "keyNumber (VInt64 k) = Some (sint k)"
| "keyNumber k = None"

definition base10 :: "int \<Rightarrow> string" where
  "base10 i = (if i < 0 then CHR ''-'' # decimal (nat (- i)) else decimal (nat i))"

lemma size_val_nth: "i < length vs \<Longrightarrow> size (vs ! i) < Suc (size_list size vs)"
proof -
  assume "i < length vs"
  then have "vs ! i \<in> set vs" by simp
  then have "size (vs ! i) \<le> size_list size vs"
    by (rule size_list_estimation') simp
  then show ?thesis by simp
qed

text \<open>
  \<open>transformData\<close> with its two loops: over the pairs of a
  \<open>map[interface{}]interface{}\<close> in iteration order, appending to \<open>o\<close>, and over the
  indices of a slice, writing into \<open>o\<close>, allocated with \<open>len1\<close> nil elements. Ranging over
  a nil map and measuring a nil slice give no iteration; a nil \<open>*yaml.Node\<close> is
  dereferenced by \<open>yamlNode\<close>.
\<close>

function transformData :: "(Node \<Rightarrow> string) \<Rightarrow> (string \<Rightarrow> error + float64) \<Rightarrow> val \<Rightarrow> error + val"
  and transformData_map :: "(Node \<Rightarrow> string) \<Rightarrow> (string \<Rightarrow> error + float64) \<Rightarrow> (val \<times> val) list \<Rightarrow> JSONMapSlice \<Rightarrow> error + val"
  and transformData_slice :: "(Node \<Rightarrow> string) \<Rightarrow> (string \<Rightarrow> error + float64) \<Rightarrow> val list \<Rightarrow> nat \<Rightarrow> val list \<Rightarrow> error + val"
where
  "transformData resolve ParseFloat input =
    (case input of
       VNode n \<Rightarrow> yamlNode resolve ParseFloat n
     | VNodePtr n \<Rightarrow> yamlNode resolve ParseFloat n
     | VGMap kvs \<Rightarrow> transformData_map resolve ParseFloat kvs []
     | VSlice vs \<Rightarrow> transformData_slice resolve ParseFloat vs 0 (replicate (length vs) VNil)
     | VNilOf t \<Rightarrow>
         (case t of
            TNodePtr \<Rightarrow> Inl (Panic ''nil pointer dereference'')
          | TMapIface \<Rightarrow> Inr (VMapSlice [])
          | TSlice \<Rightarrow> Inr (VSlice [])
          | _ \<Rightarrow> Inr input)
     | _ \<Rightarrow> Inr input)"
| "transformData_map resolve ParseFloat [] o' = Inr (VMapSlice o')"
| "transformData_map resolve ParseFloat ((ke, va) # rest) o' =
    (case format ke of
       Inl err \<Rightarrow> Inl err
     | Inr key \<Rightarrow>
         (case transformData resolve ParseFloat va of
            Inl ert \<Rightarrow> Inl ert
          | Inr v \<Rightarrow> transformData_map resolve ParseFloat rest (o' @ [JSONMapItem key v])))"
| "transformData_slice resolve ParseFloat vs i o' =
    (if i < length vs then
       (case transformData resolve ParseFloat (vs ! i) of
          Inl err \<Rightarrow> Inl err
        | Inr v \<Rightarrow> transformData_slice resolve ParseFloat vs (i + 1) (o'[i := v]))
     else Inr (VSlice o'))"
  by pat_completeness auto

termination
proof (relation "measures
    [\<lambda>x. case x of
        Inl (_, _, v) \<Rightarrow> size v
      | Inr (Inl (_, _, kvs, _)) \<Rightarrow> size (VGMap kvs)
      | Inr (Inr (_, _, vs, _, _)) \<Rightarrow> size (VSlice vs),
     \<lambda>x. case x of
        Inl (_, _, v) \<Rightarrow> (case v of VSlice vs \<Rightarrow> length vs + 2 | _ \<Rightarrow> 1)
      | Inr (Inl (_, _, _, _)) \<Rightarrow> 0
      | Inr (Inr (_, _, vs, i, _)) \<Rightarrow> length vs + 1 - i]",
    goal_cases)
qed (auto simp: size_val_nth)

declare transformData.simps [simp del] transformData_slice.simps [simp del]

section \<open>The transform pipeline\<close>

text \<open>
  A \<open>DocProcessor\<close> is a Go function \<open>func(any) (any, error)\<close>. It may have effects of
  its own, so it takes and returns the state \<open>'s\<close> of whatever it touches.
\<close>

type_synonym 's DocProcessor = "val \<Rightarrow> 's \<Rightarrow> (error + val) \<times> 's"

record 's docOptions =
  processors :: "'s DocProcessor list"

type_synonym 's DocOption = "'s docOptions \<Rightarrow> 's docOptions"

definition WithDocProcessor :: "'s DocProcessor \<Rightarrow> 's DocOption" where
  "WithDocProcessor processor = (\<lambda>o'. o'\<lparr>processors := processors o' @ [processor]\<rparr>)"

text \<open>The function literal that \<open>WithXOrderProcessor\<close> registers when enabled.\<close>

definition xorderProcessor :: "'s DocProcessor" where
  "xorderProcessor doc s =
    (case doc of
       VNode n \<Rightarrow> (Inr VNil, s)
     | VNodePtr n \<Rightarrow> (Inr VNil, s)
     | VMapSlice m \<Rightarrow> (Inr VNil, s)
     | VNilOf t \<Rightarrow>
         (if t = TNodePtr \<or> t = TJSONMapSlice then (Inr VNil, s)
          else (Inl (Errorf ''XOrder processor only support yamlv3.Node and swag.JSONMapSlice input documents, got: %T'' []), s))
     | _ \<Rightarrow> (Inl (Errorf ''XOrder processor only support yamlv3.Node and swag.JSONMapSlice input documents, got: %T'' []), s))"

definition WithXOrderProcessor :: "bool \<Rightarrow> 's DocOption" where
  "WithXOrderProcessor enabled =
    (if \<not> enabled then (\<lambda>o'. o') else WithDocProcessor xorderProcessor)"

definition docOptionsWithDefaults :: "'s DocOption list \<Rightarrow> 's docOptions" where
  "docOptionsWithDefaults opts = foldl (\<lambda>o' apply. apply o') \<lparr>processors = []\<rparr> opts"

definition HasTransforms :: "'s docOptions \<Rightarrow> bool" where
  "HasTransforms o' = (length (processors o') > 0)"

text \<open>The loop of \<open>ApplyTransforms\<close> over the processors still to run, \<open>doc\<close> the document so far.\<close>

fun ApplyTransforms_loop :: "'s DocProcessor list \<Rightarrow> val \<Rightarrow> 's \<Rightarrow> (error + val) \<times> 's" where
  "ApplyTransforms_loop [] doc s = (Inr doc, s)"
| "ApplyTransforms_loop (process # rest) doc s =
    (case process doc s of
       (Inl err, s') \<Rightarrow> (Inl err, s')
     | (Inr doc', s') \<Rightarrow> ApplyTransforms_loop rest doc' s')"

definition ApplyTransforms :: "'s docOptions \<Rightarrow> val \<Rightarrow> 's \<Rightarrow> (error + val) \<times> 's" where
  "ApplyTransforms o' inputDoc s = ApplyTransforms_loop (processors o') inputDoc s"

section \<open>The ordered document model as JSON\<close>

subsection \<open>JSON text, jwriter.Writer and jlexer.Lexer (github.com/mailru/easyjson)\<close>

text \<open>
  A JSON text is the sequence of its lexical units. How the writer spells a string or a
  number in bytes and how the lexer reads the bytes back (quoting, escapes, white space)
  is the library's business and is not modelled: a string token holds the string, a
  number token holds the number's text.
\<close>

datatype jtoken = TDelim char | TColon | TComma | TString string | TNumber string | TBool bool | TNull

text \<open>\<open>jwriter.Writer\<close>: the buffer and the first error reported to it.\<close>

record Writer =
  Buffer :: "jtoken list"
  Error :: "error option"

definition RawByte :: "jtoken \<Rightarrow> Writer \<Rightarrow> Writer" where
  "RawByte c w = w\<lparr>Buffer := Buffer w @ [c]\<rparr>"

definition String :: "string \<Rightarrow> Writer \<Rightarrow> Writer" where
  "String s w = w\<lparr>Buffer := Buffer w @ [TString s]\<rparr>"

text \<open>\<open>Writer.Raw(data, err)\<close>: keeps the first error; empty data is written as \<open>null\<close>.\<close>

definition Raw :: "error + jtoken list \<Rightarrow> Writer \<Rightarrow> Writer" where
  "Raw r w =
    (if Error w \<noteq> None then w
     else case r of
        Inl err \<Rightarrow> w\<lparr>Error := Some err\<rparr>
      | Inr data \<Rightarrow> if data \<noteq> [] then w\<lparr>Buffer := Buffer w @ data\<rparr>
                   else w\<lparr>Buffer := Buffer w @ [TNull]\<rparr>)"

definition BuildBytes :: "Writer \<Rightarrow> error + jtoken list" where
  "BuildBytes w = (case Error w of Some err \<Rightarrow> Inl err | None \<Rightarrow> Inr (Buffer w))"

text \<open>
  \<open>jlexer.Lexer\<close>: the input not yet scanned, the token scanned and not yet consumed, the
  separator wanted before the next token, and whether the next element is the first of
  its object or array. The lexer's fatal error is the \<open>Inl\<close> of a result: after its first
  error the lexer scans nothing more and reports not \<open>Ok\<close>, every loop of yaml.go
  ends, and \<open>UnmarshalJSON\<close> returns that error.
\<close>

record Lexer =
  Data :: "jtoken list"
  token :: "jtoken option"
  wantSep :: "jtoken option"
  firstElement :: bool

definition isOpening :: "char \<Rightarrow> bool" where
  "isOpening c = (c = CHR ''{'' \<or> c = CHR ''['')"

text \<open>\<open>Lexer.FetchToken\<close>: skips the wanted separator and scans one token.\<close>

fun FetchToken_scan :: "jtoken list \<Rightarrow> jtoken option \<Rightarrow> bool \<Rightarrow> error + Lexer" where
  "FetchToken_scan [] sep first = Inl (LibError ''EOF'')"
| "FetchToken_scan (TColon # rest) sep first =
    (if sep = Some TColon then FetchToken_scan rest None first else Inl (LibError ''syntax error''))"
| "FetchToken_scan (TComma # rest) sep first =
    (if sep = Some TComma then FetchToken_scan rest None first else Inl (LibError ''syntax error''))"
| "FetchToken_scan (TDelim c # rest) sep first =
    (if isOpening c then
       (if sep \<noteq> None then Inl (LibError ''syntax error'')
        else Inr \<lparr>Data = rest, token = Some (TDelim c), wantSep = sep, firstElement = True\<rparr>)
     else
       (if \<not> first \<and> sep \<noteq> Some TComma then Inl (LibError ''syntax error'')
        else Inr \<lparr>Data = rest, token = Some (TDelim c), wantSep = None, firstElement = first\<rparr>))"
| "FetchToken_scan (t # rest) sep first =
    (if sep \<noteq> None then Inl (LibError ''syntax error'')
     else Inr \<lparr>Data = rest, token = Some t, wantSep = sep, firstElement = first\<rparr>)"

definition FetchToken :: "Lexer \<Rightarrow> error + Lexer" where
  "FetchToken l = FetchToken_scan (Data l) (wantSep l) (firstElement l)"

text \<open>The opening of the lexer's reading methods: scan a token unless one is pending.\<close>

definition scanToken :: "Lexer \<Rightarrow> error + Lexer" where
  "scanToken l = (if token l = None then FetchToken l else Inr l)"

definition consume :: "Lexer \<Rightarrow> Lexer" where
  "consume l = l\<lparr>token := None\<rparr>"

definition IsDelim :: "char \<Rightarrow> Lexer \<Rightarrow> error + bool \<times> Lexer" where
  "IsDelim c l = (case scanToken l of Inl err \<Rightarrow> Inl err | Inr l' \<Rightarrow> Inr (token l' = Some (TDelim c), l'))"

definition Delim :: "char \<Rightarrow> Lexer \<Rightarrow> error + Lexer" where
  "Delim c l =
    (case scanToken l of
       Inl err \<Rightarrow> Inl err
     | Inr l' \<Rightarrow> if token l' = Some (TDelim c) then Inr (consume l') else Inl (LibError ''invalid token''))"

definition IsNull :: "Lexer \<Rightarrow> error + bool \<times> Lexer" where
  "IsNull l = (case scanToken l of Inl err \<Rightarrow> Inl err | Inr l' \<Rightarrow> Inr (token l' = Some TNull, l'))"

definition Skip :: "Lexer \<Rightarrow> error + Lexer" where
  "Skip l = (case scanToken l of Inl err \<Rightarrow> Inl err | Inr l' \<Rightarrow> Inr (consume l'))"

definition UnsafeString :: "Lexer \<Rightarrow> error + string \<times> Lexer" where
  "UnsafeString l =
    (case scanToken l of
       Inl err \<Rightarrow> Inl err
     | Inr l' \<Rightarrow>
         (case token l' of
            Some (TString s) \<Rightarrow> Inr (s, consume l')
          | _ \<Rightarrow> Inl (LibError ''invalid token'')))"

definition WantColon :: "Lexer \<Rightarrow> Lexer" where
  "WantColon l = l\<lparr>wantSep := Some TColon, firstElement := False\<rparr>"

definition WantComma :: "Lexer \<Rightarrow> Lexer" where
  "WantComma l = l\<lparr>wantSep := Some TComma, firstElement := False\<rparr>"

text \<open>
  \<open>Lexer.Interface\<close> on a scalar token: a string, a \<open>float64\<close> for every number
  (\<open>ParseFloat\<close> stands for \<open>strconv.ParseFloat(s, 64)\<close>), a boolean, or nil. yaml.go calls
  it only after \<open>IsDelim\<close> has excluded an object and an array, which are not modelled.
\<close>

definition Interface :: "(string \<Rightarrow> error + float64) \<Rightarrow> Lexer \<Rightarrow> error + val \<times> Lexer" where
  "Interface ParseFloat l =
    (case scanToken l of
       Inl err \<Rightarrow> Inl err
     | Inr l' \<Rightarrow>
         (case token l' of
            Some (TString s) \<Rightarrow> Inr (VString s, consume l')
          | Some (TNumber t) \<Rightarrow>
              (case ParseFloat t of Inl err \<Rightarrow> Inl err | Inr f \<Rightarrow> Inr (VFloat64 f, consume l'))
          | Some (TBool b) \<Rightarrow> Inr (VBool b, consume l')
          | Some TNull \<Rightarrow> Inr (VNil, consume l')
          | Some (TDelim c) \<Rightarrow>
              if isOpening c then Inl (LibError ''object or array: not modelled'')
              else Inl (LibError ''syntax error'')
          | _ \<Rightarrow> Inl (LibError ''syntax error'')))"

subsection \<open>Encoding\<close>

text \<open>
  Modelled from the spec: \<open>WriteJSON\<close>, which is defined in a file of the repository that
  is not among the sources (section 4.3: entries are written in stored order inside an
  object delimiter pair, nested documents and lists recurse, a null list or nested
  document is written as an empty collection). \<open>jsonFloat\<close> stands for the text that
  \<open>encoding/json\<close> gives a \<open>float64\<close>. \<open>MarshalEasyJSON_loop\<close> is the loop of
  \<open>JSONMapSlice.MarshalEasyJSON\<close> over the items from index \<open>i\<close> on: the comma is written
  unless the item is the last one.
\<close>

fun WriteJSON :: "(float64 \<Rightarrow> string) \<Rightarrow> val \<Rightarrow> error + jtoken list"
  and WriteJSON_list :: "(float64 \<Rightarrow> string) \<Rightarrow> val list \<Rightarrow> error + jtoken list"
  and MarshalEasyJSON_loop :: "(float64 \<Rightarrow> string) \<Rightarrow> JSONMapItem list \<Rightarrow> Writer \<Rightarrow> Writer"
  and MarshalEasyJSON_item :: "(float64 \<Rightarrow> string) \<Rightarrow> JSONMapItem \<Rightarrow> Writer \<Rightarrow> Writer"
where
  "WriteJSON jsonFloat VNil = Inr [TNull]"
| "WriteJSON jsonFloat (VString s) = Inr [TString s]"
| "WriteJSON jsonFloat (VBool b) = Inr [TBool b]"
| "WriteJSON jsonFloat (VInt64 i) = Inr [TNumber (FormatInt i)]"
| "WriteJSON jsonFloat (VUint64 u) = Inr [TNumber (FormatUint u)]"
| "WriteJSON jsonFloat (VFloat64 f) = Inr [TNumber (jsonFloat f)]"
| "WriteJSON jsonFloat (VMapSlice s) =
    BuildBytes (RawByte (TDelim CHR ''}'')
      (MarshalEasyJSON_loop jsonFloat s (RawByte (TDelim CHR ''{'') \<lparr>Buffer = [], Error = None\<rparr>)))"
| "WriteJSON jsonFloat (VSlice vs) =
    (case WriteJSON_list jsonFloat vs of
       Inl err \<Rightarrow> Inl err
     | Inr ts \<Rightarrow> Inr (TDelim CHR ''['' # ts @ [TDelim CHR '']'']))"
| "WriteJSON jsonFloat (VNilOf t) =
    (if t = TJSONMapSlice then Inr [TDelim CHR ''{'', TDelim CHR ''}'']
     else if t = TSlice then Inr [TDelim CHR ''['', TDelim CHR '']'']
     else Inl (LibError ''value outside the document model''))"
| "WriteJSON jsonFloat v = Inl (LibError ''value outside the document model'')"
| "WriteJSON_list jsonFloat [] = Inr []"
| "WriteJSON_list jsonFloat (v # vs) =
    (case WriteJSON jsonFloat v of
       Inl err \<Rightarrow> Inl err
     | Inr ts \<Rightarrow>
         (case WriteJSON_list jsonFloat vs of
            Inl err \<Rightarrow> Inl err
          | Inr rest \<Rightarrow> Inr (if vs = [] then ts else ts @ TComma # rest)))"
| "MarshalEasyJSON_loop jsonFloat [] w = w"
| "MarshalEasyJSON_loop jsonFloat (it # rest) w =
    (let w' = MarshalEasyJSON_item jsonFloat it w
     in MarshalEasyJSON_loop jsonFloat rest (if rest \<noteq> [] then RawByte TComma w' else w'))"
| "MarshalEasyJSON_item jsonFloat (JSONMapItem key value) w =
    Raw (WriteJSON jsonFloat value) (RawByte TColon (String key w))"

text \<open>\<open>JSONMapSlice.MarshalEasyJSON\<close> and \<open>JSONMapSlice.MarshalJSON\<close>.\<close>

definition MarshalEasyJSON :: "(float64 \<Rightarrow> string) \<Rightarrow> JSONMapSlice \<Rightarrow> Writer \<Rightarrow> Writer" where
  "MarshalEasyJSON jsonFloat s w =
    RawByte (TDelim CHR ''}'') (MarshalEasyJSON_loop jsonFloat s (RawByte (TDelim CHR ''{'') w))"

definition MarshalJSON :: "(float64 \<Rightarrow> string) \<Rightarrow> JSONMapSlice \<Rightarrow> error + jtoken list" where
  "MarshalJSON jsonFloat s = BuildBytes (MarshalEasyJSON jsonFloat s \<lparr>Buffer = [], Error = None\<rparr>)"

subsection \<open>Decoding\<close>

text \<open>
  \<open>JSONMapSlice.unmarshalEasyJSONWithHooks\<close>, its loop and
  \<open>JSONMapItem.unmarshalEasyJSONWithHooks\<close>. The first argument bounds the depth of the
  calls: \<open>None\<close> says that the bound was reached. \<open>s\<close> is the value the receiver holds
  before the call. \<open>sliceItem\<close> stands for \<open>JSONSliceItem.unmarshalEasyJSONWithHooks\<close>,
  which is not among the sources: it gives the \<open>Value\<close> the element ends with.
\<close>

fun unmarshalEasyJSONWithHooks ::
    "nat \<Rightarrow> (string \<Rightarrow> error + float64) \<Rightarrow> (Lexer \<Rightarrow> error + val \<times> Lexer) \<Rightarrow> JSONMapSlice \<Rightarrow> Lexer
      \<Rightarrow> (error + JSONMapSlice \<times> Lexer) option"
  and unmarshalEasyJSONWithHooks_loop ::
    "nat \<Rightarrow> (string \<Rightarrow> error + float64) \<Rightarrow> (Lexer \<Rightarrow> error + val \<times> Lexer) \<Rightarrow> JSONMapSlice \<Rightarrow> Lexer
      \<Rightarrow> (error + JSONMapSlice \<times> Lexer) option"
  and unmarshalItem ::
    "nat \<Rightarrow> (string \<Rightarrow> error + float64) \<Rightarrow> (Lexer \<Rightarrow> error + val \<times> Lexer) \<Rightarrow> Lexer
      \<Rightarrow> (error + JSONMapItem \<times> Lexer) option"
where
  "unmarshalEasyJSONWithHooks 0 ParseFloat sliceItem s in' = None"
| "unmarshalEasyJSONWithHooks (Suc n) ParseFloat sliceItem s in' =
    (case IsNull in' of
       Inl err \<Rightarrow> Some (Inl err)
     | Inr (isNull, in1) \<Rightarrow>
         if isNull then
           (case Skip in1 of Inl err \<Rightarrow> Some (Inl err) | Inr in2 \<Rightarrow> Some (Inr (s, in2)))
         else
           (case Delim CHR ''{'' in1 of
              Inl err \<Rightarrow> Some (Inl err)
            | Inr in2 \<Rightarrow> unmarshalEasyJSONWithHooks_loop n ParseFloat sliceItem [] in2))"
| "unmarshalEasyJSONWithHooks_loop 0 ParseFloat sliceItem result in' = None"
| "unmarshalEasyJSONWithHooks_loop (Suc n) ParseFloat sliceItem result in' =
    (case IsDelim CHR ''}'' in' of
       Inl err \<Rightarrow> Some (Inl err)
     | Inr (closing, in1) \<Rightarrow>
         if closing then Some (Inr (result, in1))
         else
           (case unmarshalItem n ParseFloat sliceItem in1 of
              None \<Rightarrow> None
            | Some (Inl err) \<Rightarrow> Some (Inl err)
            | Some (Inr (mi, in2)) \<Rightarrow>
                unmarshalEasyJSONWithHooks_loop n ParseFloat sliceItem (result @ [mi]) in2))"
| "unmarshalItem 0 ParseFloat sliceItem in' = None"
| "unmarshalItem (Suc n) ParseFloat sliceItem in' =
    (case UnsafeString in' of
       Inl err \<Rightarrow> Some (Inl err)
     | Inr (key, in1) \<Rightarrow>
         (case IsDelim CHR ''{'' (WantColon in1) of
            Inl err \<Rightarrow> Some (Inl err)
          | Inr (isObject, in2) \<Rightarrow>
              if isObject then
                (case unmarshalEasyJSONWithHooks n ParseFloat sliceItem [] in2 of
                   None \<Rightarrow> None
                 | Some (Inl err) \<Rightarrow> Some (Inl err)
                 | Some (Inr (inner, in3)) \<Rightarrow> Some (Inr (JSONMapItem key (VMapSlice inner), WantComma in3)))
              else
                (case IsDelim CHR ''['' in2 of
                   Inl err \<Rightarrow> Some (Inl err)
                 | Inr (isArray, in3) \<Rightarrow>
                     if isArray then
                       (case sliceItem in3 of
                          Inl err \<Rightarrow> Some (Inl err)
                        | Inr (element, in4) \<Rightarrow> Some (Inr (JSONMapItem key (VSliceItem element), WantComma in4)))
                     else
                       (case Interface ParseFloat in3 of
                          Inl err \<Rightarrow> Some (Inl err)
                        | Inr (value, in4) \<Rightarrow> Some (Inr (JSONMapItem key value, WantComma in4))))))"

text \<open>\<open>JSONMapSlice.UnmarshalJSON\<close> on a receiver that holds \<open>s\<close>: the lexer's error, or the slice.\<close>

definition UnmarshalJSON ::
    "nat \<Rightarrow> (string \<Rightarrow> error + float64) \<Rightarrow> (Lexer \<Rightarrow> error + val \<times> Lexer) \<Rightarrow> JSONMapSlice \<Rightarrow> jtoken list
      \<Rightarrow> (error + JSONMapSlice) option" where
  "UnmarshalJSON n ParseFloat sliceItem s data =
    (case unmarshalEasyJSONWithHooks n ParseFloat sliceItem s
            \<lparr>Data = data, token = None, wantSep = None, firstElement = False\<rparr> of
       None \<Rightarrow> None
     | Some (Inl err) \<Rightarrow> Some (Inl err)
     | Some (Inr (s', l)) \<Rightarrow> Some (Inr s'))"

text \<open>
  The scalars of the document model, and what a scalar comes back as: itself, but a
  number as the \<open>float64\<close> that \<open>ParseFloat\<close> reads from its JSON text.
\<close>

fun isScalar :: "val \<Rightarrow> bool" where
  "isScalar VNil = True"
| "isScalar (VString s) = True"
| "isScalar (VBool b) = True"
| "isScalar (VInt64 i) = True"
| "isScalar (VUint64 u) = True"
| "isScalar (VFloat64 f) = True"
| "isScalar v = False"

fun comesBackAs :: "(string \<Rightarrow> error + float64) \<Rightarrow> (float64 \<Rightarrow> string) \<Rightarrow> val \<Rightarrow> val \<Rightarrow> bool" where
  "comesBackAs ParseFloat jsonFloat (VInt64 i) v' =
    (case ParseFloat (FormatInt i) of Inl err \<Rightarrow> False | Inr f \<Rightarrow> v' = VFloat64 f)"
| "comesBackAs ParseFloat jsonFloat (VUint64 u) v' =
    (case ParseFloat (FormatUint u) of Inl err \<Rightarrow> False | Inr f \<Rightarrow> v' = VFloat64 f)"
| "comesBackAs ParseFloat jsonFloat (VFloat64 f) v' =
    (case ParseFloat (jsonFloat f) of Inl err \<Rightarrow> False | Inr f' \<Rightarrow> v' = VFloat64 f')"
| "comesBackAs ParseFloat jsonFloat v v' = (v' = v)"

text \<open>The tokens of the entries from one on, the first of an object or a later one.\<close>

fun isScalarToken :: "jtoken \<Rightarrow> bool" where
  "isScalarToken (TString s) = True"
| "isScalarToken (TNumber t) = True"
| "isScalarToken (TBool b) = True"
| "isScalarToken TNull = True"
| "isScalarToken t = False"

fun entryTokens :: "bool \<Rightarrow> (string \<times> jtoken) list \<Rightarrow> jtoken list" where
  "entryTokens first [] = []"
| "entryTokens first ((k, tk) # rest) =
    (if first then [] else [TComma]) @ [TString k, TColon, tk] @ entryTokens False rest"

definition lexerAt :: "bool \<Rightarrow> jtoken list \<Rightarrow> Lexer" where
  "lexerAt first toks =
    \<lparr>Data = toks, token = None, wantSep = (if first then None else Some TComma), firstElement = first\<rparr>"

section \<open>Examples used to run the definitions\<close>

text \<open>
  Stand-ins for the library functions on the inputs of the examples: a resolver that
  gives the untagged scalar \<open>null\<close> the null tag and any other untagged node the string
  tag, and the floats \<open>1.5\<close>, \<open>1\<close> and \<open>0\<close>.
\<close>

definition exResolve :: "Node \<Rightarrow> string" where
  "exResolve n = (if Kind n = ScalarNode \<and> Value n = ''null'' then ''!!null'' else ''!!str'')"

definition exParseFloat :: "string \<Rightarrow> error + float64" where
  "exParseFloat s =
    (if s = ''1.5'' then Inr 0x3FF8000000000000
     else if s = ''1'' then Inr 0x3FF0000000000000
     else if s = ''0'' then Inr 0
     else Inl (LibError ''invalid syntax''))"

definition exFormatFloat :: "float64 \<Rightarrow> string" where
  "exFormatFloat f =
    (if f = 0x3FF8000000000000 then ''1.5'' else if f = 0x3FF0000000000000 then ''1'' else ''0'')"

text \<open>A stand-in for the parser on the buffers \<open>a: 1\<close> and \<open>- 1\<close>.\<close>

definition exDocument :: Node where
  "exDocument = Node DocumentNode [] []
     [Node MappingNode ''!!map'' []
        [Node ScalarNode ''!!str'' ''a'' [] None, Node ScalarNode ''!!int'' ''1'' [] None] None] None"

definition exSeqDocument :: Node where
  "exSeqDocument = Node DocumentNode [] []
     [Node SequenceNode ''!!seq'' [] [Node ScalarNode ''!!int'' ''1'' [] None] None] None"

definition exUnmarshal :: "8 word list \<Rightarrow> error + Node" where
  "exUnmarshal data =
    (if data = [0x61, 0x3A, 0x20, 0x31] then Inr exDocument
     else if data = [0x2D, 0x20, 0x31] then Inr exSeqDocument
     else Inl (LibError ''yaml: not one of the examples''))"

text \<open>The mapping \<open>{a: 1, a: 2}\<close>, and a mapping whose second key is a boolean.\<close>

definition exDupMapping :: Node where
  "exDupMapping = Node MappingNode ''!!map'' []
     [Node ScalarNode ''!!str'' ''a'' [] None, Node ScalarNode ''!!int'' ''1'' [] None,
      Node ScalarNode ''!!str'' ''a'' [] None, Node ScalarNode ''!!int'' ''2'' [] None] None"

definition exBoolKeyMapping :: Node where
  "exBoolKeyMapping = Node MappingNode ''!!map'' []
     [Node ScalarNode ''!!int'' ''7'' [] None, Node ScalarNode ''!!str'' ''x'' [] None,
      Node ScalarNode ''!!bool'' ''true'' [] None, Node ScalarNode ''!!str'' ''y'' [] None] None"

text \<open>The mapping \<open>{7: x, 1.5: y}\<close>, whose keys are an integer and a float.\<close>

definition exIntKeyMapping :: Node where
  "exIntKeyMapping = Node MappingNode ''!!map'' []
     [Node ScalarNode ''!!int'' ''7'' [] None, Node ScalarNode ''!!str'' ''x'' [] None,
      Node ScalarNode ''!!float'' ''1.5'' [] None, Node ScalarNode ''!!str'' ''y'' [] None] None"

text \<open>A \<open>map[string]interface{}\<close> in one iteration order, and the nodes of its values.\<close>

definition exMap :: "(string \<times> val) list" where
  "exMap = [(''b'', VString ''c''), (''a'', VInt64 12), (''B'', VNil), (''ab'', VBool True)]"

definition exMapChild :: "string \<Rightarrow> Node" where
  "exMapChild k =
    (if k = ''b'' then Node ScalarNode yamlStringScalar ''c'' [] None
     else if k = ''a'' then Node ScalarNode yamlIntScalar ''12'' [] None
     else if k = ''ab'' then Node ScalarNode yamlBoolScalar ''true'' [] None
     else Node ScalarNode [] ''null'' [] None)"

text \<open>Two generic maps in one iteration order, the second with a boolean key.\<close>

definition exGMap :: "(val \<times> val) list" where
  "exGMap = [(VInt8 (- 7), VString ''x''), (VString ''k'', VGMap [(VUint16 12, VNil)])]"

definition exBadGMap :: "(val \<times> val) list" where
  "exBadGMap = [(VInt8 (- 7), VString ''x''), (VBool True, VNil), (VString ''k'', VNil)]"

text \<open>
  A stand-in for \<open>JSONSliceItem.unmarshalEasyJSONWithHooks\<close> that reads the array of the
  example and gives the list itself, and the documents of the JSON examples.
\<close>

definition exSliceItem :: "Lexer \<Rightarrow> error + val \<times> Lexer" where
  "exSliceItem l =
    (if Data l = [TString ''x'', TDelim CHR '']'', TDelim CHR ''}'']
     then Inr (VSlice [VString ''x''],
               \<lparr>Data = [TDelim CHR ''}''], token = None, wantSep = None, firstElement = False\<rparr>)
     else Inl (LibError ''not the array of the examples''))"

definition exSliceDoc :: JSONMapSlice where
  "exSliceDoc = [JSONMapItem ''a'' (VSlice [VString ''x''])]"

definition exNestedDoc :: JSONMapSlice where
  "exNestedDoc = [JSONMapItem ''a'' (VMapSlice [JSONMapItem ''b'' (VString ''x'')]), JSONMapItem ''c'' (VString ''y'')]"

definition exScalarDoc :: JSONMapSlice where
  "exScalarDoc = [JSONMapItem ''a'' (VInt64 1), JSONMapItem ''b'' (VString ''x''),
     JSONMapItem ''c'' (VFloat64 0x3FF8000000000000), JSONMapItem ''d'' (VBool True), JSONMapItem ''e'' VNil]"

definition exScalarDocBack :: JSONMapSlice where
  "exScalarDocBack = [JSONMapItem ''a'' (VFloat64 0x3FF0000000000000), JSONMapItem ''b'' (VString ''x''),
     JSONMapItem ''c'' (VFloat64 0x3FF8000000000000), JSONMapItem ''d'' (VBool True), JSONMapItem ''e'' VNil]"

text \<open>Processors that record their runs in a trace, the state they share.\<close>

definition exSetX :: "nat list DocProcessor" where
  "exSetX doc s = (Inr (VMapSlice [JSONMapItem ''x'' doc]), s @ [1])"

definition exFail :: "nat list DocProcessor" where
  "exFail doc s = (Inl (LibError ''P2 failed''), s @ [2])"

definition exSetY :: "nat list DocProcessor" where
  "exSetY doc s = (Inr (VMapSlice [JSONMapItem ''y'' doc]), s @ [3])"

section \<open>strconv: printing and parsing agree\<close>

lemma digitVal_digit: "d < 10 \<Longrightarrow> digitVal (digit d) = Some d"
proof -
  assume "d < 10"
  then have "d \<in> {0, 1, 2, 3, 4, 5, 6, 7, 8, 9}" by auto
  then show ?thesis
    by (auto simp: digitVal_def digit_def)
qed


lemma parseDigits_snoc:
  "parseDigits (xs @ [c]) acc =
    (case parseDigits xs acc of
       None \<Rightarrow> None
     | Some a \<Rightarrow> (case digitVal c of None \<Rightarrow> None | Some d \<Rightarrow> Some (10 * a + d)))"
  by (induction xs arbitrary: acc) (auto split: option.splits)

lemma parseDigits_decimal: "parseDigits (decimal n) 0 = Some n"
proof (induction n rule: decimal.induct)
  case (1 n)
  show ?case
  proof (cases "n < 10")
    case True
    then show ?thesis
      by (subst decimal.simps) (simp add: digitVal_digit)
  next
    case False
    with 1 have "parseDigits (decimal (n div 10)) 0 = Some (n div 10)" by simp
    with False show ?thesis
      by (subst decimal.simps) (simp add: parseDigits_snoc digitVal_digit)
  qed
qed

lemma decimal_nonempty: "decimal n \<noteq> []"
  by (subst decimal.simps) simp




section \<open>The tree walker: the loop of yamlMapping\<close>

lemma JSONMapItem_collapse: "JSONMapItem (Key it) (ItemValue it) = it"
  by (cases it) simp

lemma yamlMapping_loop_total:
  "i + 2 * length its = length (Content n) \<Longrightarrow>
   (\<forall>t<length its. yamlStringScalarC r (Content n ! (i + 2 * t)) = Inr (Key (its ! t))
        \<and> yamlNode r pf (Content n ! (i + 2 * t + 1)) = Inr (ItemValue (its ! t))) \<Longrightarrow>
   j + length its \<le> length m \<Longrightarrow>
   yamlMapping_loop r pf n i j m = Inr (VMapSlice (take j m @ its @ drop (j + length its) m))"
proof (induction its arbitrary: i j m)
  case Nil
  then show ?case by (subst yamlMapping_loop.simps) simp
next
  case (Cons it its)
  from Cons.prems(1) have len: "i < length (Content n)" "i + 1 < length (Content n)"
    "(i + 2) + 2 * length its = length (Content n)" by simp_all
  from Cons.prems(2) [rule_format, of 0]
  have k0: "yamlStringScalarC r (Content n ! i) = Inr (Key it)"
    and v0: "yamlNode r pf (Content n ! (i + 1)) = Inr (ItemValue it)" by simp_all
  have rest: "\<forall>t<length its. yamlStringScalarC r (Content n ! ((i + 2) + 2 * t)) = Inr (Key (its ! t))
        \<and> yamlNode r pf (Content n ! ((i + 2) + 2 * t + 1)) = Inr (ItemValue (its ! t))"
  proof (intro allI impI)
    fix t assume "t < length its"
    then have "Suc t < length (it # its)" by simp
    from Cons.prems(2) [rule_format, OF this]
    show "yamlStringScalarC r (Content n ! ((i + 2) + 2 * t)) = Inr (Key (its ! t))
        \<and> yamlNode r pf (Content n ! ((i + 2) + 2 * t + 1)) = Inr (ItemValue (its ! t))"
      by (simp add: algebra_simps)
  qed
  from Cons.prems(3) have j: "j < length m" "(j + 1) + length its \<le> length (m[j := it])" by simp_all
  have step: "yamlMapping_loop r pf n i j m = yamlMapping_loop r pf n (i + 2) (j + 1) (m[j := it])"
    using len k0 v0 j by (subst yamlMapping_loop.simps) (simp add: JSONMapItem_collapse)
  have "yamlMapping_loop r pf n (i + 2) (j + 1) (m[j := it]) =
      Inr (VMapSlice (take (j + 1) (m[j := it]) @ its @ drop ((j + 1) + length its) (m[j := it])))"
    by (rule Cons.IH [OF len(3) rest j(2)])
  also have "take (j + 1) (m[j := it]) = take j m @ [it]"
    using j(1) by (simp add: take_Suc_conv_app_nth)
  also have "drop ((j + 1) + length its) (m[j := it]) = drop (j + length (it # its)) m"
    by simp
  finally show ?case using step by simp
qed

lemma yamlMapping_loop_bad_key:
  "i + 2 * t < length (Content n) \<Longrightarrow>
   yamlStringScalarC r (Content n ! (i + 2 * t)) = Inl e \<Longrightarrow>
   \<exists>e'. yamlMapping_loop r pf n i j m = Inl e'"
proof (induction t arbitrary: i j m)
  case 0
  then show ?case by (subst yamlMapping_loop.simps) simp
next
  case (Suc t)
  from Suc.prems have a: "(i + 2) + 2 * t < length (Content n)"
    and b: "yamlStringScalarC r (Content n ! ((i + 2) + 2 * t)) = Inl e" by (simp_all add: algebra_simps)
  have next_fails: "\<exists>e'. yamlMapping_loop r pf n (i + 2) j' m' = Inl e'" for j' m'
    by (rule Suc.IH [OF a b])
  show ?case
  proof (cases "yamlStringScalarC r (Content n ! i)")
    case (Inl err)
    with a show ?thesis by (subst yamlMapping_loop.simps) simp
  next
    case key: (Inr k)
    show ?thesis
    proof (cases "yamlNode r pf (Content n ! (i + 1))")
      case (Inl err)
      with a key show ?thesis by (subst yamlMapping_loop.simps) simp
    next
      case (Inr v)
      with a key next_fails [of "j + 1" "m[j := JSONMapItem k v]"] show ?thesis
        by (subst yamlMapping_loop.simps) auto
    qed
  qed
qed

lemma yamlMapping_loop_Inr:
  "yamlMapping_loop r pf n i j m = Inr v \<Longrightarrow> i \<le> length (Content n) \<Longrightarrow> j \<le> length m \<Longrightarrow>
   \<exists>its. v = VMapSlice (take j m @ its @ drop (j + length its) m)
      \<and> i + 2 * length its = length (Content n) \<and> j + length its \<le> length m
      \<and> (\<forall>t<length its. yamlStringScalarC r (Content n ! (i + 2 * t)) = Inr (Key (its ! t))
            \<and> yamlNode r pf (Content n ! (i + 2 * t + 1)) = Inr (ItemValue (its ! t)))"
proof (induction "length (Content n) - i" arbitrary: i j m rule: less_induct)
  case less
  show ?case
  proof (cases "i < length (Content n)")
    case False
    with less.prems have "i = length (Content n)" "v = VMapSlice m"
      by (simp_all add: yamlMapping_loop.simps [of r pf n i j m])
    with less.prems(3) show ?thesis by (intro exI [of _ "[]"]) simp
  next
    case True
    from less.prems(1) True obtain k v' where
      key: "yamlStringScalarC r (Content n ! i) = Inr k"
      and i1: "i + 1 < length (Content n)"
      and val: "yamlNode r pf (Content n ! (i + 1)) = Inr v'"
      and j: "j < length m"
      and rec: "yamlMapping_loop r pf n (i + 2) (j + 1) (m[j := JSONMapItem k v']) = Inr v"
      by (subst (asm) yamlMapping_loop.simps) (auto split: sum.splits if_splits)
    from i1 have dec: "length (Content n) - (i + 2) < length (Content n) - i"
      and le: "i + 2 \<le> length (Content n)" by simp_all
    from j have jle: "j + 1 \<le> length (m[j := JSONMapItem k v'])" by simp
    from less.hyps [OF dec rec le jle] obtain its where
      v: "v = VMapSlice (take (j + 1) (m[j := JSONMapItem k v']) @ its
              @ drop ((j + 1) + length its) (m[j := JSONMapItem k v']))"
      and len: "(i + 2) + 2 * length its = length (Content n)"
      and jl: "(j + 1) + length its \<le> length (m[j := JSONMapItem k v'])"
      and all: "\<forall>t<length its. yamlStringScalarC r (Content n ! ((i + 2) + 2 * t)) = Inr (Key (its ! t))
            \<and> yamlNode r pf (Content n ! ((i + 2) + 2 * t + 1)) = Inr (ItemValue (its ! t))"
      by blast
    let ?its = "JSONMapItem k v' # its"
    have "take (j + 1) (m[j := JSONMapItem k v']) = take j m @ [JSONMapItem k v']"
      using j by (simp add: take_Suc_conv_app_nth)
    with v have v': "v = VMapSlice (take j m @ ?its @ drop (j + length ?its) m)" by simp
    have all': "\<forall>t<length ?its. yamlStringScalarC r (Content n ! (i + 2 * t)) = Inr (Key (?its ! t))
            \<and> yamlNode r pf (Content n ! (i + 2 * t + 1)) = Inr (ItemValue (?its ! t))"
    proof (intro allI impI)
      fix t assume t: "t < length ?its"
      show "yamlStringScalarC r (Content n ! (i + 2 * t)) = Inr (Key (?its ! t))
            \<and> yamlNode r pf (Content n ! (i + 2 * t + 1)) = Inr (ItemValue (?its ! t))"
      proof (cases t)
        case 0
        with key val show ?thesis by simp
      next
        case (Suc t')
        with t have "t' < length its" by simp
        with all Suc show ?thesis by (simp add: algebra_simps)
      qed
    qed
    from v' len jl all' show ?thesis
      by (intro exI [of _ ?its]) simp
  qed
qed

lemma yamlMapping_Inr_iff:
  "yamlMapping r pf n = Inr v \<longleftrightarrow>
    (\<exists>its. v = VMapSlice its \<and> length (Content n) = 2 * length its
      \<and> (\<forall>t<length its. yamlStringScalarC r (Content n ! (2 * t)) = Inr (Key (its ! t))
            \<and> yamlNode r pf (Content n ! (2 * t + 1)) = Inr (ItemValue (its ! t))))"
proof
  assume "yamlMapping r pf n = Inr v"
  then have "yamlMapping_loop r pf n 0 0 (replicate (length (Content n) div 2) (JSONMapItem [] VNil)) = Inr v"
    by (simp add: yamlMapping.simps)
  from yamlMapping_loop_Inr [OF this] obtain its where
    v: "v = VMapSlice (its @ drop (length its) (replicate (length (Content n) div 2) (JSONMapItem [] VNil)))"
    and len: "2 * length its = length (Content n)"
    and all: "\<forall>t<length its. yamlStringScalarC r (Content n ! (2 * t)) = Inr (Key (its ! t))
            \<and> yamlNode r pf (Content n ! (2 * t + 1)) = Inr (ItemValue (its ! t))"
    by auto
  from len have "length (Content n) div 2 = length its" by simp
  with v have "v = VMapSlice its" by simp
  with len all show "\<exists>its. v = VMapSlice its \<and> length (Content n) = 2 * length its
      \<and> (\<forall>t<length its. yamlStringScalarC r (Content n ! (2 * t)) = Inr (Key (its ! t))
            \<and> yamlNode r pf (Content n ! (2 * t + 1)) = Inr (ItemValue (its ! t)))"
    by auto
next
  assume "\<exists>its. v = VMapSlice its \<and> length (Content n) = 2 * length its
      \<and> (\<forall>t<length its. yamlStringScalarC r (Content n ! (2 * t)) = Inr (Key (its ! t))
            \<and> yamlNode r pf (Content n ! (2 * t + 1)) = Inr (ItemValue (its ! t)))"
  then obtain its where v: "v = VMapSlice its" and len: "length (Content n) = 2 * length its"
    and all: "\<forall>t<length its. yamlStringScalarC r (Content n ! (0 + 2 * t)) = Inr (Key (its ! t))
            \<and> yamlNode r pf (Content n ! (0 + 2 * t + 1)) = Inr (ItemValue (its ! t))"
    by auto
  from len have a: "0 + 2 * length its = length (Content n)" by simp
  have b: "0 + length its \<le> length (replicate (length (Content n) div 2) (JSONMapItem [] VNil))"
    using len by simp
  from yamlMapping_loop_total [OF a all b] len v
  show "yamlMapping r pf n = Inr v"
    by (simp add: yamlMapping.simps)
qed

lemma yamlMapping_bad_key:
  "2 * t < length (Content n) \<Longrightarrow> yamlStringScalarC r (Content n ! (2 * t)) = Inl e \<Longrightarrow>
   \<exists>e'. yamlMapping r pf n = Inl e'"
  using yamlMapping_loop_bad_key [of 0 t n r e pf] by (simp add: yamlMapping.simps)

section \<open>The tree walker: properties\<close>

lemma yamlNode_MappingNode: "Kind n = MappingNode \<Longrightarrow> yamlNode r pf n = yamlMapping r pf n"
  by (simp add: yamlNode.simps)

lemma yamlStringScalarC_Inr_iff:
  "yamlStringScalarC r k = Inr s \<longleftrightarrow>
     Kind k = ScalarNode \<and> LongTag r k \<in> {yamlStringScalar, yamlIntScalar, yamlFloatScalar} \<and> s = Value k"
  by (auto simp: yamlStringScalarC_def Let_def)

text \<open>
  C4. A mapping node whose keys are accepted and whose value nodes walk to the values
  \<open>vs\<close> yields one entry per key/value pair, in document order: entry \<open>t\<close> has the raw
  text of the \<open>t\<close>-th key node and the \<open>t\<close>-th value. Nothing requires the keys to differ,
  so a key that occurs several times yields as many entries: for every key text, the
  entries with that key are as many as the key nodes with that text.
\<close>

theorem yamlMapping_keeps_duplicate_keys:
  "Kind n = MappingNode \<Longrightarrow> length (Content n) = 2 * length vs \<Longrightarrow>
   (\<forall>t<length vs. Kind (Content n ! (2 * t)) = ScalarNode
       \<and> LongTag r (Content n ! (2 * t)) \<in> {yamlStringScalar, yamlIntScalar, yamlFloatScalar}
       \<and> yamlNode r pf (Content n ! (2 * t + 1)) = Inr (vs ! t)) \<Longrightarrow>
   yamlNode r pf n =
     Inr (VMapSlice (map (\<lambda>t. JSONMapItem (Value (Content n ! (2 * t))) (vs ! t)) [0..<length vs]))
   \<and> (\<forall>k. length (filter (\<lambda>it. Key it = k)
                (map (\<lambda>t. JSONMapItem (Value (Content n ! (2 * t))) (vs ! t)) [0..<length vs]))
          = length (filter (\<lambda>t. Value (Content n ! (2 * t)) = k) [0..<length vs]))"
proof -
  assume kind: "Kind n = MappingNode" and len: "length (Content n) = 2 * length vs"
    and all: "\<forall>t<length vs. Kind (Content n ! (2 * t)) = ScalarNode
       \<and> LongTag r (Content n ! (2 * t)) \<in> {yamlStringScalar, yamlIntScalar, yamlFloatScalar}
       \<and> yamlNode r pf (Content n ! (2 * t + 1)) = Inr (vs ! t)"
  let ?its = "map (\<lambda>t. JSONMapItem (Value (Content n ! (2 * t))) (vs ! t)) [0..<length vs]"
  have "\<forall>t<length ?its. yamlStringScalarC r (Content n ! (2 * t)) = Inr (Key (?its ! t))
            \<and> yamlNode r pf (Content n ! (2 * t + 1)) = Inr (ItemValue (?its ! t))"
    using all by (simp add: yamlStringScalarC_Inr_iff)
  moreover have "length (Content n) = 2 * length ?its" using len by simp
  ultimately have "yamlMapping r pf n = Inr (VMapSlice ?its)"
    using yamlMapping_Inr_iff [of r pf n "VMapSlice ?its"] by blast
  with kind have "yamlNode r pf n = Inr (VMapSlice ?its)"
    by (simp add: yamlNode_MappingNode)
  moreover have "\<forall>k. length (filter (\<lambda>it. Key it = k) ?its)
      = length (filter (\<lambda>t. Value (Content n ! (2 * t)) = k) [0..<length vs])"
    by (simp add: filter_map comp_def)
  ultimately show ?thesis by blast
qed

lemma ex_int_scalar_1: "yamlNode exResolve exParseFloat (Node ScalarNode ''!!int'' ''1'' [] None) = Inr (VInt64 1)"
  by (simp add: yamlNode.simps yamlScalar_def LongTag_def longTag_def shortTag_def hasPrefix_def
      longTagPrefix_def yamlTags_defs ParseInt_def ParseUint_def digitVal_def)

lemma ex_int_scalar_2: "yamlNode exResolve exParseFloat (Node ScalarNode ''!!int'' ''2'' [] None) = Inr (VInt64 2)"
  by (simp add: yamlNode.simps yamlScalar_def LongTag_def longTag_def shortTag_def hasPrefix_def
      longTagPrefix_def yamlTags_defs ParseInt_def ParseUint_def digitVal_def)

theorem yamlMapping_keeps_duplicate_keys_witness:
  "yamlNode exResolve exParseFloat exDupMapping =
     Inr (VMapSlice [JSONMapItem ''a'' (VInt64 1), JSONMapItem ''a'' (VInt64 2)])"
proof -
  have kind: "Kind exDupMapping = MappingNode" by (simp add: exDupMapping_def)
  have len: "length (Content exDupMapping) = 2 * length [VInt64 1, VInt64 2]"
    by (simp add: exDupMapping_def)
  have all: "\<forall>t<length [VInt64 1, VInt64 2]. Kind (Content exDupMapping ! (2 * t)) = ScalarNode
       \<and> LongTag exResolve (Content exDupMapping ! (2 * t)) \<in> {yamlStringScalar, yamlIntScalar, yamlFloatScalar}
       \<and> yamlNode exResolve exParseFloat (Content exDupMapping ! (2 * t + 1)) = Inr ([VInt64 1, VInt64 2] ! t)"
    by (simp add: All_less_Suc exDupMapping_def ex_int_scalar_1 ex_int_scalar_2
        LongTag_def longTag_def shortTag_def hasPrefix_def longTagPrefix_def yamlTags_defs)
  have upt: "[0..<length [VInt64 1, VInt64 2]] = [0, 1]" by (simp add: upt_rec)
  from yamlMapping_keeps_duplicate_keys [OF kind len all] show ?thesis
    unfolding upt by (simp add: exDupMapping_def)
qed

lemma yamlMapping_succeeds_iff:
  "yamlMapping r pf n = Inr v \<longleftrightarrow>
    (\<exists>vs. length (Content n) = 2 * length vs
       \<and> (\<forall>t<length vs. Kind (Content n ! (2 * t)) = ScalarNode
             \<and> LongTag r (Content n ! (2 * t)) \<in> {yamlStringScalar, yamlIntScalar, yamlFloatScalar}
             \<and> yamlNode r pf (Content n ! (2 * t + 1)) = Inr (vs ! t))
       \<and> v = VMapSlice (map (\<lambda>t. JSONMapItem (Value (Content n ! (2 * t))) (vs ! t)) [0..<length vs]))"
proof
  assume "yamlMapping r pf n = Inr v"
  then obtain its where its: "v = VMapSlice its" "length (Content n) = 2 * length its"
      "\<forall>t<length its. yamlStringScalarC r (Content n ! (2 * t)) = Inr (Key (its ! t))
            \<and> yamlNode r pf (Content n ! (2 * t + 1)) = Inr (ItemValue (its ! t))"
    using yamlMapping_Inr_iff [of r pf n v] by blast
  let ?vs = "map ItemValue its"
  have keys: "\<forall>t<length ?vs. Kind (Content n ! (2 * t)) = ScalarNode
             \<and> LongTag r (Content n ! (2 * t)) \<in> {yamlStringScalar, yamlIntScalar, yamlFloatScalar}
             \<and> yamlNode r pf (Content n ! (2 * t + 1)) = Inr (?vs ! t)"
    using its(3) by (simp add: yamlStringScalarC_Inr_iff)
  have "its = map (\<lambda>t. JSONMapItem (Value (Content n ! (2 * t))) (?vs ! t)) [0..<length ?vs]"
  proof (rule nth_equalityI)
    show "length its = length (map (\<lambda>t. JSONMapItem (Value (Content n ! (2 * t))) (?vs ! t)) [0..<length ?vs])"
      by simp
  next
    fix t assume t: "t < length its"
    with its(3) have "Key (its ! t) = Value (Content n ! (2 * t))"
      by (simp add: yamlStringScalarC_Inr_iff)
    with t show "its ! t = map (\<lambda>t. JSONMapItem (Value (Content n ! (2 * t))) (?vs ! t)) [0..<length ?vs] ! t"
      using JSONMapItem_collapse [of "its ! t"] by simp
  qed
  with its(1) have "v = VMapSlice (map (\<lambda>t. JSONMapItem (Value (Content n ! (2 * t))) (?vs ! t)) [0..<length ?vs])"
    by simp
  moreover from its(2) have "length (Content n) = 2 * length ?vs" by simp
  ultimately show "\<exists>vs. length (Content n) = 2 * length vs
       \<and> (\<forall>t<length vs. Kind (Content n ! (2 * t)) = ScalarNode
             \<and> LongTag r (Content n ! (2 * t)) \<in> {yamlStringScalar, yamlIntScalar, yamlFloatScalar}
             \<and> yamlNode r pf (Content n ! (2 * t + 1)) = Inr (vs ! t))
       \<and> v = VMapSlice (map (\<lambda>t. JSONMapItem (Value (Content n ! (2 * t))) (vs ! t)) [0..<length vs])"
    using keys by blast
next
  assume "\<exists>vs. length (Content n) = 2 * length vs
       \<and> (\<forall>t<length vs. Kind (Content n ! (2 * t)) = ScalarNode
             \<and> LongTag r (Content n ! (2 * t)) \<in> {yamlStringScalar, yamlIntScalar, yamlFloatScalar}
             \<and> yamlNode r pf (Content n ! (2 * t + 1)) = Inr (vs ! t))
       \<and> v = VMapSlice (map (\<lambda>t. JSONMapItem (Value (Content n ! (2 * t))) (vs ! t)) [0..<length vs])"
  then obtain vs where len: "length (Content n) = 2 * length vs"
    and all: "\<forall>t<length vs. Kind (Content n ! (2 * t)) = ScalarNode
             \<and> LongTag r (Content n ! (2 * t)) \<in> {yamlStringScalar, yamlIntScalar, yamlFloatScalar}
             \<and> yamlNode r pf (Content n ! (2 * t + 1)) = Inr (vs ! t)"
    and v: "v = VMapSlice (map (\<lambda>t. JSONMapItem (Value (Content n ! (2 * t))) (vs ! t)) [0..<length vs])"
    by blast
  let ?its = "map (\<lambda>t. JSONMapItem (Value (Content n ! (2 * t))) (vs ! t)) [0..<length vs]"
  have "\<forall>t<length ?its. yamlStringScalarC r (Content n ! (2 * t)) = Inr (Key (?its ! t))
            \<and> yamlNode r pf (Content n ! (2 * t + 1)) = Inr (ItemValue (?its ! t))"
    using all by (simp add: yamlStringScalarC_Inr_iff)
  moreover have "length (Content n) = 2 * length ?its" using len by simp
  ultimately show "yamlMapping r pf n = Inr v"
    using v yamlMapping_Inr_iff [of r pf n v] by blast
qed

text \<open>
  C7. A key node is accepted exactly when it is a scalar whose long tag is the string,
  integer or float tag, and then the entry's key is the node's raw text. A key node that
  is not a scalar, or is tagged boolean, null or timestamp, is refused, and a mapping
  that has a refused key node at any key position fails as a whole. The walk of a
  mapping returns exactly when its content is pairs of an accepted key node and a value
  node whose walk returns, and then entry \<open>t\<close> is the raw text of the \<open>t\<close>-th key node with
  the value of the \<open>t\<close>-th value node.
\<close>

theorem yamlMapping_key_tags:
  "(yamlStringScalarC r k = Inr s \<longleftrightarrow>
      Kind k = ScalarNode \<and> LongTag r k \<in> {yamlStringScalar, yamlIntScalar, yamlFloatScalar} \<and> s = Value k)
   \<and> (Kind k \<noteq> ScalarNode \<or> LongTag r k \<in> {yamlBoolScalar, yamlNull, yamlTimestamp}
        \<longrightarrow> (\<exists>e. yamlStringScalarC r k = Inl e))
   \<and> (Kind n = MappingNode \<and> 2 * t < length (Content n) \<and> Content n ! (2 * t) = k
        \<and> (\<exists>e. yamlStringScalarC r k = Inl e)
        \<longrightarrow> (\<exists>e'. yamlNode r pf n = Inl e'))
   \<and> (Kind n = MappingNode \<and> yamlNode r pf n = Inr v \<and> 2 * t < length (Content n) \<and> Content n ! (2 * t) = k
        \<longrightarrow> (\<exists>its. v = VMapSlice its \<and> t < length its \<and> Key (its ! t) = Value k
               \<and> yamlStringScalarC r k = Inr (Value k)))
   \<and> (Kind n = MappingNode \<longrightarrow>
        (yamlNode r pf n = Inr v \<longleftrightarrow>
          (\<exists>vs. length (Content n) = 2 * length vs
             \<and> (\<forall>t<length vs. Kind (Content n ! (2 * t)) = ScalarNode
                   \<and> LongTag r (Content n ! (2 * t)) \<in> {yamlStringScalar, yamlIntScalar, yamlFloatScalar}
                   \<and> yamlNode r pf (Content n ! (2 * t + 1)) = Inr (vs ! t))
             \<and> v = VMapSlice (map (\<lambda>t. JSONMapItem (Value (Content n ! (2 * t))) (vs ! t)) [0..<length vs]))))"
proof (intro conjI impI)
  show "yamlStringScalarC r k = Inr s \<longleftrightarrow>
      Kind k = ScalarNode \<and> LongTag r k \<in> {yamlStringScalar, yamlIntScalar, yamlFloatScalar} \<and> s = Value k"
    by (rule yamlStringScalarC_Inr_iff)
next
  assume "Kind k \<noteq> ScalarNode \<or> LongTag r k \<in> {yamlBoolScalar, yamlNull, yamlTimestamp}"
  then show "\<exists>e. yamlStringScalarC r k = Inl e"
    by (auto simp: yamlStringScalarC_def Let_def yamlTags_defs)
next
  assume a: "Kind n = MappingNode \<and> 2 * t < length (Content n) \<and> Content n ! (2 * t) = k
        \<and> (\<exists>e. yamlStringScalarC r k = Inl e)"
  then obtain e where "yamlStringScalarC r (Content n ! (2 * t)) = Inl e" by blast
  with a yamlMapping_bad_key [of t n r e pf] show "\<exists>e'. yamlNode r pf n = Inl e'"
    using yamlNode_MappingNode [of n r pf] by simp
next
  assume a: "Kind n = MappingNode \<and> yamlNode r pf n = Inr v \<and> 2 * t < length (Content n) \<and> Content n ! (2 * t) = k"
  then have "yamlMapping r pf n = Inr v" using yamlNode_MappingNode [of n r pf] by simp
  then obtain its where its: "v = VMapSlice its" "length (Content n) = 2 * length its"
      "\<forall>t<length its. yamlStringScalarC r (Content n ! (2 * t)) = Inr (Key (its ! t))
            \<and> yamlNode r pf (Content n ! (2 * t + 1)) = Inr (ItemValue (its ! t))"
    using yamlMapping_Inr_iff [of r pf n v] by blast
  from a its(2) have t: "t < length its" by simp
  with its(3) a have "yamlStringScalarC r k = Inr (Key (its ! t))" by blast
  with its(1) t show "\<exists>its. v = VMapSlice its \<and> t < length its \<and> Key (its ! t) = Value k
               \<and> yamlStringScalarC r k = Inr (Value k)"
    by (auto simp: yamlStringScalarC_Inr_iff)
next
  assume "Kind n = MappingNode"
  then show "yamlNode r pf n = Inr v \<longleftrightarrow>
          (\<exists>vs. length (Content n) = 2 * length vs
             \<and> (\<forall>t<length vs. Kind (Content n ! (2 * t)) = ScalarNode
                   \<and> LongTag r (Content n ! (2 * t)) \<in> {yamlStringScalar, yamlIntScalar, yamlFloatScalar}
                   \<and> yamlNode r pf (Content n ! (2 * t + 1)) = Inr (vs ! t))
             \<and> v = VMapSlice (map (\<lambda>t. JSONMapItem (Value (Content n ! (2 * t))) (vs ! t)) [0..<length vs]))"
    using yamlMapping_succeeds_iff [of r pf n v] yamlNode_MappingNode [of n r pf] by simp
qed

lemma ex_str_scalar: "yamlNode exResolve exParseFloat (Node ScalarNode ''!!str'' s [] None) = Inr (VString s)"
  by (simp add: yamlNode.simps yamlScalar_def LongTag_def longTag_def shortTag_def hasPrefix_def
      longTagPrefix_def yamlTags_defs)

theorem yamlMapping_key_tags_witness:
  "yamlStringScalarC exResolve (Node ScalarNode ''!!int'' ''7'' [] None) = Inr ''7''
   \<and> (\<exists>e. yamlStringScalarC exResolve (Node ScalarNode ''!!bool'' ''true'' [] None) = Inl e)
   \<and> (\<exists>e'. yamlNode exResolve exParseFloat exBoolKeyMapping = Inl e')
   \<and> yamlNode exResolve exParseFloat exIntKeyMapping =
       Inr (VMapSlice [JSONMapItem ''7'' (VString ''x''), JSONMapItem ''1.5'' (VString ''y'')])"
proof -
  let ?k7 = "Node ScalarNode ''!!int'' ''7'' [] None"
  let ?kb = "Node ScalarNode ''!!bool'' ''true'' [] None"
  let ?vs = "[VString ''x'', VString ''y'']"
  let ?v = "VMapSlice [JSONMapItem ''7'' (VString ''x''), JSONMapItem ''1.5'' (VString ''y'')]"
  have tag7: "Kind ?k7 = ScalarNode \<and> LongTag exResolve ?k7 \<in> {yamlStringScalar, yamlIntScalar, yamlFloatScalar}
      \<and> ''7'' = Value ?k7"
    by (simp add: LongTag_def longTag_def shortTag_def hasPrefix_def longTagPrefix_def yamlTags_defs)
  have tagb: "Kind ?kb \<noteq> ScalarNode \<or> LongTag exResolve ?kb \<in> {yamlBoolScalar, yamlNull, yamlTimestamp}"
    by (simp add: LongTag_def longTag_def shortTag_def hasPrefix_def longTagPrefix_def yamlTags_defs)
  note thm7 = yamlMapping_key_tags [of exResolve ?k7 "''7''" exBoolKeyMapping 1 exParseFloat VNil]
  note thmb = yamlMapping_key_tags [of exResolve ?kb "''true''" exBoolKeyMapping 1 exParseFloat VNil]
  note thmi = yamlMapping_key_tags [of exResolve ?k7 "''7''" exIntKeyMapping 0 exParseFloat ?v]
  from tag7 have a: "yamlStringScalarC exResolve ?k7 = Inr ''7''"
    by (rule iffD2 [OF thm7 [THEN conjunct1]])
  from tagb have b: "\<exists>e. yamlStringScalarC exResolve ?kb = Inl e"
    by (rule thmb [THEN conjunct2, THEN conjunct1, rule_format])
  have pos: "Kind exBoolKeyMapping = MappingNode \<and> 2 * 1 < length (Content exBoolKeyMapping)
      \<and> Content exBoolKeyMapping ! (2 * 1) = ?kb \<and> (\<exists>e. yamlStringScalarC exResolve ?kb = Inl e)"
    using b by (simp add: exBoolKeyMapping_def)
  then have c: "\<exists>e'. yamlNode exResolve exParseFloat exBoolKeyMapping = Inl e'"
    by (rule thmb [THEN conjunct2, THEN conjunct2, THEN conjunct1, rule_format])
  have kind: "Kind exIntKeyMapping = MappingNode" by (simp add: exIntKeyMapping_def)
  have len: "length (Content exIntKeyMapping) = 2 * length ?vs"
    by (simp add: exIntKeyMapping_def)
  have keys: "\<forall>t<length ?vs. Kind (Content exIntKeyMapping ! (2 * t)) = ScalarNode
             \<and> LongTag exResolve (Content exIntKeyMapping ! (2 * t)) \<in> {yamlStringScalar, yamlIntScalar, yamlFloatScalar}
             \<and> yamlNode exResolve exParseFloat (Content exIntKeyMapping ! (2 * t + 1)) = Inr (?vs ! t)"
    by (simp add: All_less_Suc exIntKeyMapping_def ex_str_scalar
        LongTag_def longTag_def shortTag_def hasPrefix_def longTagPrefix_def yamlTags_defs)
  have upt: "[0..<length ?vs] = [0, 1]" by (simp add: upt_rec)
  have res: "?v = VMapSlice (map (\<lambda>t. JSONMapItem (Value (Content exIntKeyMapping ! (2 * t))) (?vs ! t))
                [0..<length ?vs])"
    unfolding upt by (simp add: exIntKeyMapping_def)
  have ex: "\<exists>vs. length (Content exIntKeyMapping) = 2 * length vs
       \<and> (\<forall>t<length vs. Kind (Content exIntKeyMapping ! (2 * t)) = ScalarNode
             \<and> LongTag exResolve (Content exIntKeyMapping ! (2 * t)) \<in> {yamlStringScalar, yamlIntScalar, yamlFloatScalar}
             \<and> yamlNode exResolve exParseFloat (Content exIntKeyMapping ! (2 * t + 1)) = Inr (vs ! t))
       \<and> ?v = VMapSlice (map (\<lambda>t. JSONMapItem (Value (Content exIntKeyMapping ! (2 * t))) (vs ! t)) [0..<length vs])"
    by (rule exI [of _ ?vs]) (intro conjI len keys res)
  have d: "yamlNode exResolve exParseFloat exIntKeyMapping = Inr ?v"
    by (rule iffD2 [OF thmi [THEN conjunct2, THEN conjunct2, THEN conjunct2, THEN conjunct2, rule_format, OF kind] ex])
  from a b c d show ?thesis by (intro conjI)
qed

section \<open>The ordered document model as JSON: properties\<close>

lemmas lexer_defs = FetchToken_def scanToken_def consume_def IsDelim_def Delim_def IsNull_def Skip_def
  UnsafeString_def WantColon_def WantComma_def Interface_def isOpening_def

lemma WriteJSON_scalar:
  "isScalar v \<Longrightarrow> comesBackAs pf jf v v' \<Longrightarrow>
   \<exists>tk. WriteJSON jf v = Inr [tk] \<and> isScalarToken tk
     \<and> (\<forall>l. token l = Some tk \<longrightarrow> Interface pf l = Inr (v', consume l))"
  by (cases v) (auto simp: Interface_def scanToken_def split: sum.splits)

lemma unmarshalItem_scalar:
  assumes "isScalarToken tk" and "\<forall>l. token l = Some tk \<longrightarrow> Interface pf l = Inr (v', consume l)"
  shows "unmarshalItem (Suc n) pf su
           \<lparr>Data = TColon # tk # rest, token = Some (TString k), wantSep = None, firstElement = first\<rparr>
         = Some (Inr (JSONMapItem k v', lexerAt False rest))"
proof -
  let ?l2 = "\<lparr>Data = rest, token = Some tk, wantSep = None, firstElement = False\<rparr>"
  have fetch: "FetchToken_scan (TColon # tk # rest) (Some TColon) False = Inr ?l2"
    using assms(1) by (cases tk) simp_all
  have notd: "tk \<noteq> TDelim c" for c using assms(1) by (cases tk) simp_all
  have iface: "Interface pf ?l2 = Inr (v', consume ?l2)" using assms(2) by simp
  show ?thesis
    using fetch notd iface
    by (simp add: UnsafeString_def scanToken_def consume_def WantColon_def IsDelim_def FetchToken_def
        WantComma_def lexerAt_def)
qed

lemma IsDelim_entry:
  "IsDelim CHR ''}'' (lexerAt first (entryTokens first ((k, tk) # others) @ rest)) =
     Inr (False, \<lparr>Data = TColon # tk # entryTokens False others @ rest, token = Some (TString k),
                   wantSep = None, firstElement = first\<rparr>)"
  by (cases first) (simp_all add: IsDelim_def scanToken_def FetchToken_def lexerAt_def)

lemma IsDelim_closing:
  "IsDelim CHR ''}'' (lexerAt first (TDelim CHR ''}'' # rest)) =
     Inr (True, \<lparr>Data = rest, token = Some (TDelim CHR ''}''), wantSep = None, firstElement = first\<rparr>)"
  by (cases first) (simp_all add: IsDelim_def scanToken_def FetchToken_def lexerAt_def isOpening_def)

lemma unmarshal_loop_entries:
  "list_all2 (\<lambda>(k, tk) it'. Key it' = k \<and> isScalarToken tk
        \<and> (\<forall>l. token l = Some tk \<longrightarrow> Interface pf l = Inr (ItemValue it', consume l))) ents doc' \<Longrightarrow>
   length ents < fuel \<Longrightarrow>
   \<exists>l'. unmarshalEasyJSONWithHooks_loop fuel pf su acc
           (lexerAt first (entryTokens first ents @ TDelim CHR ''}'' # rest)) = Some (Inr (acc @ doc', l'))"
proof (induction ents doc' arbitrary: fuel acc first rule: list_all2_induct)
  case Nil
  then obtain n where "fuel = Suc n" by (cases fuel) simp_all
  then show ?case by (simp add: IsDelim_closing)
next
  case (Cons e ents it' doc')
  obtain k tk where e: "e = (k, tk)" by (cases e)
  from Cons.prems obtain m where fuel: "fuel = Suc (Suc m)" and m: "length ents < Suc m"
    by (cases fuel; cases "fuel - 1") simp_all
  from Cons.hyps(1) e have key: "Key it' = k" and sc: "isScalarToken tk"
    and rd: "\<forall>l. token l = Some tk \<longrightarrow> Interface pf l = Inr (ItemValue it', consume l)" by simp_all
  have item: "unmarshalItem (Suc m) pf su
           \<lparr>Data = TColon # tk # (entryTokens False ents @ TDelim CHR ''}'' # rest), token = Some (TString k),
             wantSep = None, firstElement = first\<rparr>
         = Some (Inr (JSONMapItem k (ItemValue it'), lexerAt False (entryTokens False ents @ TDelim CHR ''}'' # rest)))"
    by (rule unmarshalItem_scalar [OF sc rd])
  from Cons.IH [OF m, of "acc @ [it']" False] obtain l' where
    rec: "unmarshalEasyJSONWithHooks_loop (Suc m) pf su (acc @ [it'])
           (lexerAt False (entryTokens False ents @ TDelim CHR ''}'' # rest)) = Some (Inr ((acc @ [it']) @ doc', l'))"
    by blast
  have it: "JSONMapItem k (ItemValue it') = it'" using key JSONMapItem_collapse [of it'] by simp
  have "unmarshalEasyJSONWithHooks_loop (Suc (Suc m)) pf su acc
           (lexerAt first (entryTokens first ((k, tk) # ents) @ TDelim CHR ''}'' # rest))
        = Some (Inr (acc @ it' # doc', l'))"
    using IsDelim_entry [of first k tk ents "TDelim CHR ''}'' # rest"] item rec it
    by (simp del: entryTokens.simps unmarshalEasyJSONWithHooks_loop.simps(2)
        add: unmarshalEasyJSONWithHooks_loop.simps(2) [of "Suc m"])
  with e fuel show ?case by blast
qed

lemma entryTokens_later: "ents \<noteq> [] \<Longrightarrow> entryTokens False ents = TComma # entryTokens True ents"
  by (cases ents) auto

lemma MarshalEasyJSON_loop_scalars:
  "list_all2 (\<lambda>it (k, tk). Key it = k \<and> WriteJSON jf (ItemValue it) = Inr [tk]) doc ents \<Longrightarrow>
   Error w = None \<Longrightarrow>
   MarshalEasyJSON_loop jf doc w = w\<lparr>Buffer := Buffer w @ entryTokens True ents\<rparr>"
proof (induction doc ents arbitrary: w rule: list_all2_induct)
  case Nil
  show ?case by simp
next
  case (Cons it doc e ents)
  obtain k tk where e: "e = (k, tk)" by (cases e)
  obtain key v where it: "it = JSONMapItem key v" by (cases it)
  from Cons.hyps(1) e it have kv: "key = k" "WriteJSON jf v = Inr [tk]" by simp_all
  let ?w' = "w\<lparr>Buffer := Buffer w @ [TString k, TColon, tk]\<rparr>"
  have item: "MarshalEasyJSON_item jf it w = ?w'"
    using kv it Cons.prems by (simp add: Raw_def RawByte_def String_def)
  show ?case
  proof (cases "doc = []")
    case True
    with Cons.hyps(2) have "ents = []" by simp
    with True item e show ?thesis by simp
  next
    case False
    with Cons.hyps(2) have ne: "ents \<noteq> []" by auto
    have "Error (RawByte TComma ?w') = None" using Cons.prems by (simp add: RawByte_def)
    from Cons.IH [OF this] False item e ne show ?thesis
      by (simp add: RawByte_def entryTokens_later)
  qed
qed

lemma scalar_entries:
  "list_all2 (\<lambda>it it'. isScalar (ItemValue it) \<and> Key it' = Key it
        \<and> comesBackAs pf jf (ItemValue it) (ItemValue it')) doc doc' \<Longrightarrow>
   \<exists>ents. list_all2 (\<lambda>it (k, tk). Key it = k \<and> WriteJSON jf (ItemValue it) = Inr [tk]) doc ents
      \<and> list_all2 (\<lambda>(k, tk) it'. Key it' = k \<and> isScalarToken tk
        \<and> (\<forall>l. token l = Some tk \<longrightarrow> Interface pf l = Inr (ItemValue it', consume l))) ents doc'"
proof (induction doc doc' rule: list_all2_induct)
  case Nil
  show ?case by simp
next
  case (Cons it doc it' doc')
  from Cons.hyps(1) WriteJSON_scalar [of "ItemValue it" pf jf "ItemValue it'"]
  obtain tk where tk: "WriteJSON jf (ItemValue it) = Inr [tk]" "isScalarToken tk"
      "\<forall>l. token l = Some tk \<longrightarrow> Interface pf l = Inr (ItemValue it', consume l)"
    by blast
  from Cons.IH obtain ents where ents:
      "list_all2 (\<lambda>it (k, tk). Key it = k \<and> WriteJSON jf (ItemValue it) = Inr [tk]) doc ents"
      "list_all2 (\<lambda>(k, tk) it'. Key it' = k \<and> isScalarToken tk
        \<and> (\<forall>l. token l = Some tk \<longrightarrow> Interface pf l = Inr (ItemValue it', consume l))) ents doc'"
    by blast
  from tk ents Cons.hyps(1) show ?case
    by (intro exI [of _ "(Key it, tk) # ents"]) simp
qed

lemma unmarshal_loop_prefix:
  "unmarshalEasyJSONWithHooks_loop fuel pf su acc l = Some (Inr (res, l')) \<Longrightarrow> \<exists>ys. res = acc @ ys"
proof (induction fuel arbitrary: acc l)
  case 0
  then show ?case by simp
next
  case (Suc n)
  show ?case
  proof (cases "IsDelim CHR ''}'' l")
    case (Inl err)
    with Suc.prems show ?thesis by simp
  next
    case (Inr p)
    obtain closing l1 where p: "p = (closing, l1)" by (cases p)
    show ?thesis
    proof (cases closing)
      case True
      with Suc.prems Inr p show ?thesis by simp
    next
      case False
      with Suc.prems Inr p obtain mi l2 where
        "unmarshalEasyJSONWithHooks_loop n pf su (acc @ [mi]) l2 = Some (Inr (res, l'))"
        by (auto split: option.splits sum.splits)
      from Suc.IH [OF this] show ?thesis by auto
    qed
  qed
qed

text \<open>
  C1, as amended. For a document whose values are scalars (strings, 64-bit integers,
  floats, booleans, nil), \<open>MarshalJSON\<close> succeeds and \<open>UnmarshalJSON\<close>, on its output,
  returns a document with as many entries, in the same order and under the same keys. A
  string, a boolean and nil come back as they were; a number, integer or float, comes
  back as the \<open>float64\<close> that \<open>ParseFloat\<close> reads from its JSON text, so an integer does
  not remain an integer. Nested documents and lists are left out.
\<close>

theorem UnmarshalJSON_MarshalJSON_scalars:
  "list_all2 (\<lambda>it it'. isScalar (ItemValue it) \<and> Key it' = Key it
        \<and> comesBackAs pf jf (ItemValue it) (ItemValue it')) doc doc' \<Longrightarrow>
   length doc + 2 \<le> fuel \<Longrightarrow>
   \<exists>data. MarshalJSON jf doc = Inr data \<and> UnmarshalJSON fuel pf su s data = Some (Inr doc')"
proof -
  assume rel: "list_all2 (\<lambda>it it'. isScalar (ItemValue it) \<and> Key it' = Key it
        \<and> comesBackAs pf jf (ItemValue it) (ItemValue it')) doc doc'"
    and fuel: "length doc + 2 \<le> fuel"
  from scalar_entries [OF rel] obtain ents where
    enc: "list_all2 (\<lambda>it (k, tk). Key it = k \<and> WriteJSON jf (ItemValue it) = Inr [tk]) doc ents"
    and dec: "list_all2 (\<lambda>(k, tk) it'. Key it' = k \<and> isScalarToken tk
        \<and> (\<forall>l. token l = Some tk \<longrightarrow> Interface pf l = Inr (ItemValue it', consume l))) ents doc'"
    by blast
  let ?body = "entryTokens True ents @ [TDelim CHR ''}'']"
  let ?data = "TDelim CHR ''{'' # ?body"
  have "Error (RawByte (TDelim CHR ''{'') \<lparr>Buffer = [], Error = None\<rparr>) = None"
    by (simp add: RawByte_def)
  from MarshalEasyJSON_loop_scalars [OF enc this]
  have marshal: "MarshalJSON jf doc = Inr ?data"
    by (simp add: MarshalJSON_def MarshalEasyJSON_def RawByte_def BuildBytes_def)
  from fuel obtain n where n: "fuel = Suc n" by (cases fuel) simp_all
  from enc have "length ents = length doc" by (simp add: list_all2_lengthD)
  with fuel n have len: "length ents < n" by simp
  from unmarshal_loop_entries [OF dec len, of su "[]" True "[]"] obtain l' where
    loop: "unmarshalEasyJSONWithHooks_loop n pf su [] (lexerAt True (entryTokens True ents @ [TDelim CHR ''}'']))
            = Some (Inr (doc', l'))"
    by auto
  have start: "unmarshalEasyJSONWithHooks (Suc n) pf su s
        \<lparr>Data = ?data, token = None, wantSep = None, firstElement = False\<rparr>
      = unmarshalEasyJSONWithHooks_loop n pf su [] (lexerAt True ?body)"
    by (simp add: IsNull_def Delim_def scanToken_def FetchToken_def isOpening_def consume_def lexerAt_def)
  from start loop n have "UnmarshalJSON fuel pf su s ?data = Some (Inr doc')"
    by (simp add: UnmarshalJSON_def)
  with marshal show ?thesis by blast
qed

lemmas writer_defs = MarshalJSON_def MarshalEasyJSON_def RawByte_def String_def Raw_def BuildBytes_def

lemma FormatInt_1: "FormatInt 1 = ''1''"
  by (simp add: FormatInt_def decimal.simps [of "Suc 0"] digit_def)

theorem UnmarshalJSON_MarshalJSON_scalars_witness:
  "MarshalJSON exFormatFloat exScalarDoc =
     Inr [TDelim CHR ''{'', TString ''a'', TColon, TNumber ''1'', TComma, TString ''b'', TColon, TString ''x'',
          TComma, TString ''c'', TColon, TNumber ''1.5'', TComma, TString ''d'', TColon, TBool True,
          TComma, TString ''e'', TColon, TNull, TDelim CHR ''}'']
   \<and> UnmarshalJSON 7 exParseFloat exSliceItem []
       [TDelim CHR ''{'', TString ''a'', TColon, TNumber ''1'', TComma, TString ''b'', TColon, TString ''x'',
        TComma, TString ''c'', TColon, TNumber ''1.5'', TComma, TString ''d'', TColon, TBool True,
        TComma, TString ''e'', TColon, TNull, TDelim CHR ''}'']
     = Some (Inr exScalarDocBack)"
proof -
  let ?data = "[TDelim CHR ''{'', TString ''a'', TColon, TNumber ''1'', TComma, TString ''b'', TColon, TString ''x'',
          TComma, TString ''c'', TColon, TNumber ''1.5'', TComma, TString ''d'', TColon, TBool True,
          TComma, TString ''e'', TColon, TNull, TDelim CHR ''}'']"
  have rel: "list_all2 (\<lambda>it it'. isScalar (ItemValue it) \<and> Key it' = Key it
        \<and> comesBackAs exParseFloat exFormatFloat (ItemValue it) (ItemValue it')) exScalarDoc exScalarDocBack"
    by (simp add: exScalarDoc_def exScalarDocBack_def FormatInt_1 exParseFloat_def exFormatFloat_def)
  have fuel: "length exScalarDoc + 2 \<le> 7" by (simp add: exScalarDoc_def)
  have enc: "MarshalJSON exFormatFloat exScalarDoc = Inr ?data"
    by (simp add: exScalarDoc_def writer_defs FormatInt_1 exFormatFloat_def)
  from UnmarshalJSON_MarshalJSON_scalars [OF rel fuel, of exSliceItem "[]"] obtain data where
    "MarshalJSON exFormatFloat exScalarDoc = Inr data"
    "UnmarshalJSON 7 exParseFloat exSliceItem [] data = Some (Inr exScalarDocBack)"
    by blast
  with enc show ?thesis by simp
qed

text \<open>
  C1 as stated fails. The integer \<open>1\<close> under the key \<open>a\<close> comes back as the float \<open>1\<close>. A
  nested document followed by another entry comes back without that entry: the loop of
  the nested document leaves its closing brace pending, and the loop of the enclosing
  document takes it for its own. A list comes back wrapped in a \<open>JSONSliceItem\<close>, even
  when the method that reads it, which is not among the sources, gives the list itself.
\<close>

theorem UnmarshalJSON_MarshalJSON_counterexample:
  "MarshalJSON exFormatFloat [JSONMapItem ''a'' (VInt64 1)] =
     Inr [TDelim CHR ''{'', TString ''a'', TColon, TNumber ''1'', TDelim CHR ''}'']
   \<and> UnmarshalJSON 3 exParseFloat exSliceItem []
       [TDelim CHR ''{'', TString ''a'', TColon, TNumber ''1'', TDelim CHR ''}'']
     = Some (Inr [JSONMapItem ''a'' (VFloat64 0x3FF0000000000000)])
   \<and> MarshalJSON exFormatFloat exNestedDoc =
     Inr [TDelim CHR ''{'', TString ''a'', TColon, TDelim CHR ''{'', TString ''b'', TColon, TString ''x'',
          TDelim CHR ''}'', TComma, TString ''c'', TColon, TString ''y'', TDelim CHR ''}'']
   \<and> UnmarshalJSON 6 exParseFloat exSliceItem []
       [TDelim CHR ''{'', TString ''a'', TColon, TDelim CHR ''{'', TString ''b'', TColon, TString ''x'',
        TDelim CHR ''}'', TComma, TString ''c'', TColon, TString ''y'', TDelim CHR ''}'']
     = Some (Inr [JSONMapItem ''a'' (VMapSlice [JSONMapItem ''b'' (VString ''x'')])])
   \<and> MarshalJSON exFormatFloat exSliceDoc =
     Inr [TDelim CHR ''{'', TString ''a'', TColon, TDelim CHR ''['', TString ''x'', TDelim CHR '']'', TDelim CHR ''}'']
   \<and> UnmarshalJSON 3 exParseFloat exSliceItem []
       [TDelim CHR ''{'', TString ''a'', TColon, TDelim CHR ''['', TString ''x'', TDelim CHR '']'', TDelim CHR ''}'']
     = Some (Inr [JSONMapItem ''a'' (VSliceItem (VSlice [VString ''x'']))])"
proof (intro conjI)
  show "MarshalJSON exFormatFloat [JSONMapItem ''a'' (VInt64 1)] =
     Inr [TDelim CHR ''{'', TString ''a'', TColon, TNumber ''1'', TDelim CHR ''}'']"
    by (simp add: writer_defs FormatInt_1)
  show "UnmarshalJSON 3 exParseFloat exSliceItem []
       [TDelim CHR ''{'', TString ''a'', TColon, TNumber ''1'', TDelim CHR ''}'']
     = Some (Inr [JSONMapItem ''a'' (VFloat64 0x3FF0000000000000)])"
    by (simp add: UnmarshalJSON_def lexer_defs exParseFloat_def eval_nat_numeral)
  show "MarshalJSON exFormatFloat exNestedDoc =
     Inr [TDelim CHR ''{'', TString ''a'', TColon, TDelim CHR ''{'', TString ''b'', TColon, TString ''x'',
          TDelim CHR ''}'', TComma, TString ''c'', TColon, TString ''y'', TDelim CHR ''}'']"
    by (simp add: exNestedDoc_def writer_defs)
  show "UnmarshalJSON 6 exParseFloat exSliceItem []
       [TDelim CHR ''{'', TString ''a'', TColon, TDelim CHR ''{'', TString ''b'', TColon, TString ''x'',
        TDelim CHR ''}'', TComma, TString ''c'', TColon, TString ''y'', TDelim CHR ''}'']
     = Some (Inr [JSONMapItem ''a'' (VMapSlice [JSONMapItem ''b'' (VString ''x'')])])"
    by (simp add: UnmarshalJSON_def lexer_defs eval_nat_numeral)
  show "MarshalJSON exFormatFloat exSliceDoc =
     Inr [TDelim CHR ''{'', TString ''a'', TColon, TDelim CHR ''['', TString ''x'', TDelim CHR '']'', TDelim CHR ''}'']"
    by (simp add: exSliceDoc_def writer_defs)
  show "UnmarshalJSON 3 exParseFloat exSliceItem []
       [TDelim CHR ''{'', TString ''a'', TColon, TDelim CHR ''['', TString ''x'', TDelim CHR '']'', TDelim CHR ''}'']
     = Some (Inr [JSONMapItem ''a'' (VSliceItem (VSlice [VString ''x'']))])"
    by (simp add: UnmarshalJSON_def lexer_defs exSliceItem_def eval_nat_numeral)
qed

section \<open>The reverse converter: properties\<close>

lemma json2yaml_IfacePtr:
  "json2yaml ff (VIfacePtr v) = Inl (Errorf ''unhandled type: %T: %w'' [ErrYAML])"
  by (simp add: json2yaml.simps)

lemma json2yaml_mapslice_nonempty:
  "json2yaml ff (VMapSlice (it # rest)) = Inl (Errorf ''unhandled type: %T: %w'' [ErrYAML])"
  by (simp add: json2yaml.simps [of ff "VMapSlice (it # rest)"] json2yaml_IfacePtr)

lemma json2yaml_map_total:
  "(\<forall>k\<in>set ks. json2yaml ff (mapIndex kvs k) = Inr (child k)) \<Longrightarrow>
   json2yaml_map ff kvs ks content =
     Inr (Node MappingNode [] [] (content @ concat (map (\<lambda>k. [keyNode k, child k]) ks)) None)"
  by (induction ks arbitrary: content) simp_all

lemma json2yaml_map_cong:
  "(\<forall>k\<in>set ks. mapIndex kvs k = mapIndex kvs' k) \<Longrightarrow>
   json2yaml_map ff kvs ks content = json2yaml_map ff kvs' ks content"
  by (induction ks arbitrary: content) (simp_all split: sum.splits)

lemma sort_keys_eq:
  "distinct (map fst kvs) \<Longrightarrow> distinct (map fst kvs') \<Longrightarrow> set kvs' = set kvs \<Longrightarrow>
   sort (map fst kvs') = sort (map fst (kvs :: (string \<times> val) list))"
proof -
  assume d: "distinct (map fst kvs)" and d': "distinct (map fst kvs')" and s: "set kvs' = set kvs"
  have "set (sort (map fst kvs')) = set (sort (map fst kvs))" using s by simp
  moreover have "distinct (sort (map fst kvs'))" "distinct (sort (map fst kvs))" using d d' by simp_all
  ultimately show ?thesis
    by (intro sorted_distinct_set_unique) simp_all
qed

lemma mapIndex_eq:
  "distinct (map fst kvs) \<Longrightarrow> distinct (map fst kvs') \<Longrightarrow> set kvs' = set kvs \<Longrightarrow>
   mapIndex kvs' k = mapIndex kvs k"
  using map_of_inject_set [of kvs' kvs] by (simp add: mapIndex_def)

lemma mapIndex_mem: "distinct (map fst kvs) \<Longrightarrow> (k, v) \<in> set kvs \<Longrightarrow> mapIndex kvs k = v"
  by (simp add: mapIndex_def)

text \<open>
  C8. For a \<open>map[string]interface{}\<close> whose values all convert, \<open>json2yaml\<close> returns a
  Mapping node that lists the keys in ascending lexicographic (bytewise) order, each key
  node followed by the node of the value stored under that key. The result does not
  depend on the order in which the map is iterated: two lists of the same pairs give
  the same result, an error included.
\<close>

theorem json2yaml_map_sorted_keys:
  "(distinct (map fst kvs) \<and> (\<forall>(k, v)\<in>set kvs. json2yaml ff v = Inr (child k))
      \<longrightarrow> (\<exists>ks. sorted ks \<and> distinct ks \<and> set ks = fst ` set kvs \<and> ks = sort (map fst kvs)
             \<and> json2yaml ff (VMap kvs) =
                 Inr (Node MappingNode [] [] (concat (map (\<lambda>k. [keyNode k, child k]) ks)) None)))
   \<and> (distinct (map fst kvs) \<and> distinct (map fst kvs') \<and> set kvs' = set kvs
      \<longrightarrow> json2yaml ff (VMap kvs') = json2yaml ff (VMap kvs))"
proof (intro conjI impI)
  assume a: "distinct (map fst kvs) \<and> (\<forall>(k, v)\<in>set kvs. json2yaml ff v = Inr (child k))"
  let ?ks = "sort (map fst kvs)"
  have "\<forall>k\<in>set ?ks. json2yaml ff (mapIndex kvs k) = Inr (child k)"
  proof
    fix k assume "k \<in> set ?ks"
    then obtain v where kv: "(k, v) \<in> set kvs" by auto
    with a have "mapIndex kvs k = v" by (simp add: mapIndex_mem)
    with a kv show "json2yaml ff (mapIndex kvs k) = Inr (child k)" by auto
  qed
  then have "json2yaml_map ff kvs ?ks [] =
      Inr (Node MappingNode [] [] ([] @ concat (map (\<lambda>k. [keyNode k, child k]) ?ks)) None)"
    by (rule json2yaml_map_total)
  then have "json2yaml ff (VMap kvs) =
      Inr (Node MappingNode [] [] (concat (map (\<lambda>k. [keyNode k, child k]) ?ks)) None)"
    by (simp add: json2yaml.simps [of ff "VMap kvs"])
  moreover have "sorted ?ks" "distinct ?ks" "set ?ks = fst ` set kvs" using a by simp_all
  ultimately show "\<exists>ks. sorted ks \<and> distinct ks \<and> set ks = fst ` set kvs \<and> ks = sort (map fst kvs)
             \<and> json2yaml ff (VMap kvs) =
                 Inr (Node MappingNode [] [] (concat (map (\<lambda>k. [keyNode k, child k]) ks)) None)"
    by blast
next
  assume b: "distinct (map fst kvs) \<and> distinct (map fst kvs') \<and> set kvs' = set kvs"
  then have keys: "sort (map fst kvs') = sort (map fst kvs)" by (simp add: sort_keys_eq)
  from b have "\<forall>k\<in>set (sort (map fst kvs)). mapIndex kvs' k = mapIndex kvs k"
    by (simp add: mapIndex_eq)
  then have "json2yaml_map ff kvs' (sort (map fst kvs)) [] = json2yaml_map ff kvs (sort (map fst kvs)) []"
    by (rule json2yaml_map_cong)
  with keys show "json2yaml ff (VMap kvs') = json2yaml ff (VMap kvs)"
    by (simp add: json2yaml.simps [of ff "VMap kvs'"] json2yaml.simps [of ff "VMap kvs"])
qed

lemma ex_sort: "sort (map fst exMap) = [''B'', ''a'', ''ab'', ''b'']"
  by (simp add: exMap_def)


lemma FormatInt_12: "FormatInt 12 = ''12''"
  by (simp add: FormatInt_def decimal.simps [of 12] decimal.simps [of "Suc 0"] digit_def)

theorem json2yaml_map_sorted_keys_witness:
  "json2yaml exFormatFloat (VMap exMap) =
     Inr (Node MappingNode [] []
       [keyNode ''B'', Node ScalarNode [] ''null'' [] None,
        keyNode ''a'', Node ScalarNode yamlIntScalar ''12'' [] None,
        keyNode ''ab'', Node ScalarNode yamlBoolScalar ''true'' [] None,
        keyNode ''b'', Node ScalarNode yamlStringScalar ''c'' [] None] None)
   \<and> json2yaml exFormatFloat (VMap (rev exMap)) = json2yaml exFormatFloat (VMap exMap)"
proof -
  have d: "distinct (map fst exMap)" by (simp add: exMap_def)
  have c: "\<forall>(k, v)\<in>set exMap. json2yaml exFormatFloat v = Inr (exMapChild k)"
    by (simp add: exMap_def exMapChild_def json2yaml.simps FormatInt_12 FormatBool_def)
  have r: "distinct (map fst (rev exMap))" "set (rev exMap) = set exMap"
    by (simp add: exMap_def) simp
  note inst = json2yaml_map_sorted_keys [of exMap exFormatFloat exMapChild "rev exMap"]
  from inst d c have "json2yaml exFormatFloat (VMap exMap) =
      Inr (Node MappingNode [] [] (concat (map (\<lambda>k. [keyNode k, exMapChild k]) (sort (map fst exMap)))) None)"
    by blast
  then have a: "json2yaml exFormatFloat (VMap exMap) =
     Inr (Node MappingNode [] []
       [keyNode ''B'', Node ScalarNode [] ''null'' [] None,
        keyNode ''a'', Node ScalarNode yamlIntScalar ''12'' [] None,
        keyNode ''ab'', Node ScalarNode yamlBoolScalar ''true'' [] None,
        keyNode ''b'', Node ScalarNode yamlStringScalar ''c'' [] None] None)"
    by (simp add: ex_sort exMapChild_def)
  from inst d r have "json2yaml exFormatFloat (VMap (rev exMap)) = json2yaml exFormatFloat (VMap exMap)"
    by blast
  with a show ?thesis by blast
qed









text \<open>
  C2 fails on the code. A document whose entry holds a nested \<open>JSONMapSlice\<close> with an
  entry of its own is not converted: \<open>json2yaml\<close> passes \<open>&val[i].Value\<close>, a pointer, to
  itself, and no case of its type switch takes a pointer. The same value inside a
  \<open>map[string]interface{}\<close> is converted.
\<close>

theorem MarshalYAML_nested_document_fails:
  "MarshalYAML Inr exFormatFloat [JSONMapItem ''a'' (VMapSlice [JSONMapItem ''b'' (VString ''c'')])]
     = Inl (Errorf ''unhandled type: %T: %w'' [ErrYAML])
   \<and> json2yaml exFormatFloat (VMapSlice [JSONMapItem ''b'' (VString ''c'')])
     = Inl (Errorf ''unhandled type: %T: %w'' [ErrYAML])
   \<and> json2yaml exFormatFloat (VMap [(''b'', VString ''c'')])
     = Inr (Node MappingNode [] [] [keyNode ''b'', Node ScalarNode yamlStringScalar ''c'' [] None] None)"
  by (simp add: MarshalYAML_def json2yaml.simps mapIndex_def)

section \<open>The key normaliser: properties\<close>

lemma FormatUint_base10: "FormatUint x = base10 (uint x)"
  by (simp add: FormatUint_def base10_def)

lemma FormatInt_base10: "FormatInt x = base10 (sint x)"
  by (simp add: FormatInt_def base10_def)

lemma format_keyNumber: "keyNumber k = Some i \<Longrightarrow> format k = Inr (base10 i)"
  by (cases k) (auto simp: FormatUint_base10 FormatInt_base10 uint_up_ucast sint_up_scast is_up)

lemma keyNumber_range: "keyNumber k = Some i \<Longrightarrow> - (2 ^ 63) \<le> i \<and> i < 2 ^ 64"
proof (cases k)
  case (VInt x) assume "keyNumber k = Some i"
  with VInt sint_ge [of x] sint_lt [of x] show ?thesis by auto
next
  case (VInt8 x) assume "keyNumber k = Some i"
  with VInt8 sint_ge [of x] sint_lt [of x] show ?thesis by auto
next
  case (VInt16 x) assume "keyNumber k = Some i"
  with VInt16 sint_ge [of x] sint_lt [of x] show ?thesis by auto
next
  case (VInt32 x) assume "keyNumber k = Some i"
  with VInt32 sint_ge [of x] sint_lt [of x] show ?thesis by auto
next
  case (VInt64 x) assume "keyNumber k = Some i"
  with VInt64 sint_ge [of x] sint_lt [of x] show ?thesis by auto
next
  case (VUint x) assume "keyNumber k = Some i"
  with VUint uint_lt2p [of x] have "0 \<le> i" "i < 2 ^ 64" by auto
  then show ?thesis by simp
next
  case (VUint8 x) assume "keyNumber k = Some i"
  with VUint8 uint_lt2p [of x] have "0 \<le> i" "i < 2 ^ 8" by auto
  then show ?thesis by simp
next
  case (VUint16 x) assume "keyNumber k = Some i"
  with VUint16 uint_lt2p [of x] have "0 \<le> i" "i < 2 ^ 16" by auto
  then show ?thesis by simp
next
  case (VUint32 x) assume "keyNumber k = Some i"
  with VUint32 uint_lt2p [of x] have "0 \<le> i" "i < 2 ^ 32" by auto
  then show ?thesis by simp
next
  case (VUint64 x) assume "keyNumber k = Some i"
  with VUint64 uint_lt2p [of x] have "0 \<le> i" "i < 2 ^ 64" by auto
  then show ?thesis by simp
qed simp_all

lemma ParseUint_base10: "0 \<le> i \<Longrightarrow> i < 2 ^ 64 \<Longrightarrow> ParseUint (base10 i) = Inr (nat i)"
proof -
  assume "0 \<le> i" "i < 2 ^ 64"
  then have "nat i < 2 ^ 64" by (simp add: nat_less_iff)
  with \<open>0 \<le> i\<close> show ?thesis
    by (simp add: ParseUint_def base10_def decimal_nonempty parseDigits_decimal)
qed

lemma ParseInt_base10_neg: "i < 0 \<Longrightarrow> - (2 ^ 63) \<le> i \<Longrightarrow> ParseInt (base10 i) = Inr (word_of_int i)"
proof -
  assume neg: "i < 0" and lo: "- (2 ^ 63) \<le> i"
  then have bound: "nat (- i) \<le> 2 ^ 63" by (simp add: nat_le_iff)
  then have "nat (- i) < (2 :: nat) ^ 64" by simp
  then have pu: "ParseUint (decimal (nat (- i))) = Inr (nat (- i))"
    by (simp add: ParseUint_def decimal_nonempty parseDigits_decimal)
  with neg bound show ?thesis
    by (simp add: ParseInt_def base10_def)
qed

lemma format_Inl_iff: "(\<exists>e. format k = Inl e) \<longleftrightarrow> keyNumber k = None \<and> (\<forall>s. k \<noteq> VString s)"
  by (cases k) auto

lemma transformData_VGMap: "transformData r pf (VGMap kvs) = transformData_map r pf kvs []"
  by (simp add: transformData.simps)

lemma transformData_map_total:
  "list_all2 (\<lambda>(ke, va) it. format ke = Inr (Key it) \<and> transformData r pf va = Inr (ItemValue it)) kvs its \<Longrightarrow>
   transformData_map r pf kvs o' = Inr (VMapSlice (o' @ its))"
proof (induction kvs its arbitrary: o' rule: list_all2_induct)
  case Nil
  show ?case by simp
next
  case (Cons kv kvs it its)
  then show ?case by (cases kv) (simp add: JSONMapItem_collapse)
qed

lemma transformData_map_first_bad_key:
  "list_all2 (\<lambda>(ke, va) it. format ke = Inr (Key it) \<and> transformData r pf va = Inr (ItemValue it)) before its \<Longrightarrow>
   format ke = Inl e \<Longrightarrow>
   transformData_map r pf (before @ (ke, va) # after) o' = Inl e"
proof (induction before its arbitrary: o' rule: list_all2_induct)
  case Nil
  then show ?case by simp
next
  case (Cons kv kvs it its)
  then show ?case by (cases kv) simp
qed

lemma transformData_map_bad_key:
  "(ke, va) \<in> set kvs \<Longrightarrow> format ke = Inl e \<Longrightarrow> \<exists>e'. transformData_map r pf kvs o' = Inl e'"
proof (induction kvs arbitrary: o')
  case Nil
  then show ?case by simp
next
  case (Cons kv kvs)
  obtain k v where kv: "kv = (k, v)" by (cases kv)
  show ?case
  proof (cases "format k")
    case (Inl err)
    with kv show ?thesis by simp
  next
    case fk: (Inr key)
    show ?thesis
    proof (cases "transformData r pf v")
      case (Inl err)
      with kv fk show ?thesis by simp
    next
      case (Inr v')
      from fk Cons.prems kv have "(ke, va) \<in> set kvs" by auto
      from Cons.IH [OF this Cons.prems(2)] kv fk Inr show ?thesis by simp
    qed
  qed
qed

text \<open>
  C9. \<open>format\<close> returns a string key as it is and a key of any signed or unsigned integer
  type as the canonical base-10 text of its number, which parses back to that number; it
  fails exactly on keys of any other type. \<open>transformData\<close> on a generic map whose keys
  are all formatted and whose values are all transformed returns one entry per pair, in
  iteration order, under the formatted key. When the pairs before a key of another type
  succeed, the result is that key's error, whatever follows; and a map holding such a key
  anywhere fails.
\<close>

theorem transformData_map_keys:
  "(format (VString s) = Inr s)
   \<and> (keyNumber k = Some i \<longrightarrow>
        format k = Inr (base10 i)
        \<and> (0 \<le> i \<longrightarrow> ParseUint (base10 i) = Inr (nat i))
        \<and> (i < 0 \<longrightarrow> ParseInt (base10 i) = Inr (word_of_int i)))
   \<and> ((\<exists>e. format k = Inl e) \<longleftrightarrow> keyNumber k = None \<and> (\<forall>s. k \<noteq> VString s))
   \<and> (list_all2 (\<lambda>(ke, va) it. format ke = Inr (Key it) \<and> transformData r pf va = Inr (ItemValue it)) kvs its
        \<longrightarrow> transformData r pf (VGMap kvs) = Inr (VMapSlice its))
   \<and> (list_all2 (\<lambda>(ke, va) it. format ke = Inr (Key it) \<and> transformData r pf va = Inr (ItemValue it)) kvs its
        \<and> format ke = Inl e
        \<longrightarrow> transformData r pf (VGMap (kvs @ (ke, va) # after)) = Inl e)
   \<and> ((ke, va) \<in> set kvs \<and> format ke = Inl e \<longrightarrow> (\<exists>e'. transformData r pf (VGMap kvs) = Inl e'))"
proof -
  have num: "keyNumber k = Some i \<longrightarrow>
        format k = Inr (base10 i)
        \<and> (0 \<le> i \<longrightarrow> ParseUint (base10 i) = Inr (nat i))
        \<and> (i < 0 \<longrightarrow> ParseInt (base10 i) = Inr (word_of_int i))"
    using format_keyNumber [of k i] keyNumber_range [of k i] ParseUint_base10 [of i] ParseInt_base10_neg [of i]
    by blast
  have tot: "list_all2 (\<lambda>(ke, va) it. format ke = Inr (Key it) \<and> transformData r pf va = Inr (ItemValue it)) kvs its
        \<longrightarrow> transformData r pf (VGMap kvs) = Inr (VMapSlice its)"
    using transformData_map_total [of r pf kvs its "[]"] by (simp add: transformData_VGMap)
  have first: "list_all2 (\<lambda>(ke, va) it. format ke = Inr (Key it) \<and> transformData r pf va = Inr (ItemValue it)) kvs its
        \<and> format ke = Inl e
        \<longrightarrow> transformData r pf (VGMap (kvs @ (ke, va) # after)) = Inl e"
    using transformData_map_first_bad_key [of r pf kvs its ke e va after "[]"] by (simp add: transformData_VGMap)
  have bad: "(ke, va) \<in> set kvs \<and> format ke = Inl e \<longrightarrow> (\<exists>e'. transformData r pf (VGMap kvs) = Inl e')"
    using transformData_map_bad_key [of ke va kvs e r pf "[]"] by (simp add: transformData_VGMap)
  from num tot first bad format_Inl_iff [of k] show ?thesis by simp
qed


lemma ex_format_int8: "format (VInt8 (- 7)) = Inr ''-7''"
proof -
  have "keyNumber (VInt8 (- 7)) = Some (- 7)" by simp
  then have "format (VInt8 (- 7)) = Inr (base10 (- 7))" by (rule format_keyNumber)
  moreover have "base10 (- 7) = ''-7''"
    by (simp add: base10_def decimal.simps [of 7] digit_def)
  ultimately show ?thesis by (simp only:)
qed

lemma ex_format_uint16: "format (VUint16 12) = Inr ''12''"
proof -
  have "keyNumber (VUint16 12) = Some 12" by simp
  then have "format (VUint16 12) = Inr (base10 12)" by (rule format_keyNumber)
  moreover have "base10 12 = ''12''"
    by (simp add: base10_def decimal.simps [of 12] decimal.simps [of "Suc 0"] digit_def)
  ultimately show ?thesis by (simp only:)
qed

theorem transformData_map_keys_witness:
  "transformData exResolve exParseFloat (VGMap exGMap) =
     Inr (VMapSlice [JSONMapItem ''-7'' (VString ''x''),
                     JSONMapItem ''k'' (VMapSlice [JSONMapItem ''12'' VNil])])
   \<and> transformData exResolve exParseFloat (VGMap exBadGMap) =
     Inl (Errorf ''unexpected map key type, got: %T: %w'' [ErrYAML])"
proof -
  let ?r = exResolve and ?pf = exParseFloat
  let ?P = "\<lambda>(ke, va) it. format ke = Inr (Key it) \<and> transformData ?r ?pf va = Inr (ItemValue it)"
  have inner_hyp: "list_all2 ?P [(VUint16 12, VNil)] [JSONMapItem ''12'' VNil]"
    by (simp add: ex_format_uint16 transformData.simps del: format.simps)
  from transformData_map_keys
    [of "[]" "VUint16 12" 12 ?r ?pf "[(VUint16 12, VNil)]" "[JSONMapItem ''12'' VNil]" VNil "LibError []" VNil "[]"]
    inner_hyp
  have inner: "transformData ?r ?pf (VGMap [(VUint16 12, VNil)]) = Inr (VMapSlice [JSONMapItem ''12'' VNil])"
    by blast
  let ?its = "[JSONMapItem ''-7'' (VString ''x''), JSONMapItem ''k'' (VMapSlice [JSONMapItem ''12'' VNil])]"
  have hyp: "list_all2 ?P exGMap ?its"
    by (simp add: exGMap_def ex_format_int8 inner transformData.simps [of _ _ "VString ''x''"] del: format.simps)
      simp
  from transformData_map_keys
    [of "[]" "VInt8 (- 7)" "- 7" ?r ?pf exGMap ?its VNil "LibError []" VNil "[]"] hyp
  have good: "transformData ?r ?pf (VGMap exGMap) = Inr (VMapSlice ?its)"
    by blast
  have before: "list_all2 ?P [(VInt8 (- 7), VString ''x'')] [JSONMapItem ''-7'' (VString ''x'')]"
    by (simp add: ex_format_int8 transformData.simps [of _ _ "VString ''x''"] del: format.simps)
  have fb: "format (VBool True) = Inl (Errorf ''unexpected map key type, got: %T: %w'' [ErrYAML])"
    by simp
  from transformData_map_keys
    [of "[]" "VBool True" 0 ?r ?pf "[(VInt8 (- 7), VString ''x'')]" "[JSONMapItem ''-7'' (VString ''x'')]"
        "VBool True" "Errorf ''unexpected map key type, got: %T: %w'' [ErrYAML]" VNil "[(VString ''k'', VNil)]"]
    before fb
  have "transformData ?r ?pf (VGMap ([(VInt8 (- 7), VString ''x'')] @ (VBool True, VNil) # [(VString ''k'', VNil)]))
      = Inl (Errorf ''unexpected map key type, got: %T: %w'' [ErrYAML])"
    by blast
  then have bad: "transformData ?r ?pf (VGMap exBadGMap) =
      Inl (Errorf ''unexpected map key type, got: %T: %w'' [ErrYAML])"
    by (simp add: exBadGMap_def)
  from good bad show ?thesis by blast
qed

section \<open>The transform pipeline: properties\<close>

lemma processors_foldl_WithDocProcessor:
  "processors (foldl (\<lambda>o' apply. apply o') o0 (map WithDocProcessor ps)) = processors o0 @ ps"
  by (induction ps arbitrary: o0) (simp_all add: WithDocProcessor_def)

lemma processors_registered:
  "processors (docOptionsWithDefaults (map WithDocProcessor ps)) = ps"
  by (simp add: docOptionsWithDefaults_def processors_foldl_WithDocProcessor)

lemma ApplyTransforms_loop_append:
  "ApplyTransforms_loop (ps @ qs) doc s =
    (case ApplyTransforms_loop ps doc s of
       (Inl err, s') \<Rightarrow> (Inl err, s')
     | (Inr doc', s') \<Rightarrow> ApplyTransforms_loop qs doc' s')"
proof (induction ps arbitrary: doc s)
  case Nil
  show ?case by simp
next
  case (Cons p ps)
  show ?case
  proof (cases "p doc s")
    case (Pair r s1)
    then show ?thesis using Cons.IH by (cases r) simp_all
  qed
qed

text \<open>
  C5. Options built with \<open>WithDocProcessor\<close> hold the processors in registration order.
  \<open>ApplyTransforms\<close> runs them in that order, each on the document the one before it
  returned: when the processors \<open>ps\<close> succeed with \<open>doc'\<close> and the next one, \<open>p\<close>, fails,
  the result is \<open>p\<close>'s error and the state is the one \<open>p\<close> left, whatever processors \<open>qs\<close>
  follow (none of them runs); when \<open>p\<close> succeeds, its document is the result of the
  pipeline \<open>ps @ [p]\<close>. With no processor the input document comes back unchanged.
\<close>

theorem ApplyTransforms_registration_order:
  "processors (docOptionsWithDefaults (map WithDocProcessor ps)) = ps
   \<and> ApplyTransforms (docOptionsWithDefaults []) doc s = (Inr doc, s)
   \<and> (ApplyTransforms (docOptionsWithDefaults (map WithDocProcessor ps)) doc s = (Inr doc', s')
        \<and> p doc' s' = (Inl err, s'')
      \<longrightarrow> ApplyTransforms (docOptionsWithDefaults (map WithDocProcessor (ps @ p # qs))) doc s = (Inl err, s''))
   \<and> (ApplyTransforms (docOptionsWithDefaults (map WithDocProcessor ps)) doc s = (Inr doc', s')
        \<and> p doc' s' = (Inr doc'', s'')
      \<longrightarrow> ApplyTransforms (docOptionsWithDefaults (map WithDocProcessor (ps @ [p]))) doc s = (Inr doc'', s''))
   \<and> (ApplyTransforms (docOptionsWithDefaults (map WithDocProcessor ps)) doc s = (Inl err, s')
      \<longrightarrow> ApplyTransforms (docOptionsWithDefaults (map WithDocProcessor (ps @ qs))) doc s = (Inl err, s'))"
proof -
  have reg: "\<And>xs :: 's DocProcessor list. processors (docOptionsWithDefaults (map WithDocProcessor xs)) = xs"
    by (rule processors_registered)
  have empty: "ApplyTransforms (docOptionsWithDefaults []) doc s = (Inr doc, s)"
    by (simp add: ApplyTransforms_def docOptionsWithDefaults_def)
  show ?thesis
    unfolding ApplyTransforms_def reg
    using empty
    by (simp add: ApplyTransforms_def ApplyTransforms_loop_append)
qed

theorem ApplyTransforms_registration_order_witness:
  "ApplyTransforms (docOptionsWithDefaults (map WithDocProcessor [exSetX])) (VString ''d'') [] =
      (Inr (VMapSlice [JSONMapItem ''x'' (VString ''d'')]), [1])
   \<and> exFail (VMapSlice [JSONMapItem ''x'' (VString ''d'')]) [1] = (Inl (LibError ''P2 failed''), [1, 2])
   \<and> ApplyTransforms (docOptionsWithDefaults (map WithDocProcessor ([exSetX] @ exFail # [exSetY])))
        (VString ''d'') [] = (Inl (LibError ''P2 failed''), [1, 2])"
proof -
  have a: "ApplyTransforms (docOptionsWithDefaults (map WithDocProcessor [exSetX])) (VString ''d'') [] =
      (Inr (VMapSlice [JSONMapItem ''x'' (VString ''d'')]), [1])"
    by (simp add: ApplyTransforms_def docOptionsWithDefaults_def WithDocProcessor_def exSetX_def)
  have b: "exFail (VMapSlice [JSONMapItem ''x'' (VString ''d'')]) [1] = (Inl (LibError ''P2 failed''), [1, 2])"
    by (simp add: exFail_def)
  from a b ApplyTransforms_registration_order
    [of "[exSetX]" "VString ''d''" "[]" "VMapSlice [JSONMapItem ''x'' (VString ''d'')]" "[1]"
        exFail "LibError ''P2 failed''" "[1, 2]" "[exSetY]"]
  show ?thesis by blast
qed

text \<open>
  C10. The processor that \<open>WithXOrderProcessor(true)\<close> registers returns the nil document
  and no error on a \<open>yaml.Node\<close>, a \<open>*yaml.Node\<close> or a \<open>JSONMapSlice\<close> (nil or not), so a
  pipeline made of this option alone turns each of them into nil.
\<close>

theorem WithXOrderProcessor_returns_nil:
  "doc \<in> {VNode n, VNodePtr n, VNilOf TNodePtr, VMapSlice m, VNilOf TJSONMapSlice} \<Longrightarrow>
     processors (WithXOrderProcessor True o') = processors o' @ [xorderProcessor]
     \<and> xorderProcessor doc s = (Inr VNil, s)
     \<and> ApplyTransforms (docOptionsWithDefaults [WithXOrderProcessor True]) doc s = (Inr VNil, s)"
  by (auto simp: WithXOrderProcessor_def WithDocProcessor_def xorderProcessor_def
      ApplyTransforms_def docOptionsWithDefaults_def)

theorem WithXOrderProcessor_returns_nil_witness:
  "ApplyTransforms (docOptionsWithDefaults [WithXOrderProcessor True])
      (VMapSlice [JSONMapItem ''b'' (VString ''1''), JSONMapItem ''a'' (VString ''2'')]) (0::nat)
    = (Inr VNil, 0)"
proof -
  let ?m = "[JSONMapItem ''b'' (VString ''1''), JSONMapItem ''a'' (VString ''2'')]"
  let ?n = "Node DocumentNode [] [] [] None"
  have h: "VMapSlice ?m \<in> {VNode ?n, VNodePtr ?n, VNilOf TNodePtr, VMapSlice ?m, VNilOf TJSONMapSlice}"
    by simp
  from WithXOrderProcessor_returns_nil [OF h, of "\<lparr>processors = []\<rparr>" "0::nat"]
  show ?thesis by blast
qed

section \<open>The top-level entry point: properties\<close>

text \<open>
  C6. \<open>BytesToYAMLDoc\<close> returns a document exactly when the parser succeeds and leaves a
  Document node whose content is a single Mapping node, and then the document is that
  node; in every other case (parse error, another kind, no child or several, a child
  that is not a mapping) it returns an error.
\<close>

theorem BytesToYAMLDoc_object_root:
  "(BytesToYAMLDoc Unmarshal data = Inr v \<longleftrightarrow>
      (\<exists>document c. Unmarshal data = Inr document \<and> Kind document = DocumentNode
         \<and> Content document = [c] \<and> Kind c = MappingNode \<and> v = VNodePtr document))
   \<and> ((\<nexists>document c. Unmarshal data = Inr document \<and> Kind document = DocumentNode
         \<and> Content document = [c] \<and> Kind c = MappingNode)
      \<longrightarrow> (\<exists>err. BytesToYAMLDoc Unmarshal data = Inl err))"
proof -
  have shape: "\<And>cs :: Node list.
      (length cs = 1 \<and> Kind (cs ! 0) = MappingNode) \<longleftrightarrow> (\<exists>c. cs = [c] \<and> Kind c = MappingNode)"
  proof -
    fix cs :: "Node list"
    show "(length cs = 1 \<and> Kind (cs ! 0) = MappingNode) \<longleftrightarrow> (\<exists>c. cs = [c] \<and> Kind c = MappingNode)"
      by (cases cs) auto
  qed
  show ?thesis
  proof (cases "Unmarshal data")
    case (Inl err)
    then show ?thesis by (simp add: BytesToYAMLDoc_def)
  next
    case (Inr document)
    show ?thesis
      using shape [of "Content document"] Inr
      by (auto simp: BytesToYAMLDoc_def)
  qed
qed

theorem BytesToYAMLDoc_object_root_witness:
  "BytesToYAMLDoc exUnmarshal [0x61, 0x3A, 0x20, 0x31] = Inr (VNodePtr exDocument)
   \<and> (\<exists>err. BytesToYAMLDoc exUnmarshal [0x2D, 0x20, 0x31] = Inl err)"
proof -
  have ok: "\<exists>document c. exUnmarshal [0x61, 0x3A, 0x20, 0x31] = Inr document
      \<and> Kind document = DocumentNode \<and> Content document = [c] \<and> Kind c = MappingNode
      \<and> VNodePtr exDocument = VNodePtr document"
    by (simp add: exUnmarshal_def exDocument_def)
  have bad: "\<nexists>document c. exUnmarshal [0x2D, 0x20, 0x31] = Inr document
      \<and> Kind document = DocumentNode \<and> Content document = [c] \<and> Kind c = MappingNode"
    by (simp add: exUnmarshal_def exSeqDocument_def)
  from ok BytesToYAMLDoc_object_root [of exUnmarshal "[0x61, 0x3A, 0x20, 0x31]" "VNodePtr exDocument"]
  have "BytesToYAMLDoc exUnmarshal [0x61, 0x3A, 0x20, 0x31] = Inr (VNodePtr exDocument)"
    by blast
  moreover from bad BytesToYAMLDoc_object_root [of exUnmarshal "[0x2D, 0x20, 0x31]" "VNil"]
  have "\<exists>err. BytesToYAMLDoc exUnmarshal [0x2D, 0x20, 0x31] = Inl err"
    by blast
  ultimately show ?thesis by blast
qed

end
